theory Spec2Isabelle
  imports Complex_Main
begin

section \<open>Values of the search: integers extended by the two infinities\<close>

text \<open>
  \<^verbatim>\<open>evaluation_function\<close> returns a Python \<^verbatim>\<open>int\<close> or one of
  \<^verbatim>\<open>float('inf')\<close>, \<^verbatim>\<open>float('-inf')\<close>; the searches start from the same two
  infinities. The values are compared with Python's \<^verbatim>\<open>>\<close>, \<^verbatim>\<open>>=\<close>, \<^verbatim>\<open>max\<close>
  and \<^verbatim>\<open>min\<close>, which order them as below.
\<close>

datatype val = NegInf | Fin int | PosInf

instantiation val :: linorder
begin

fun less_eq_val :: "val \<Rightarrow> val \<Rightarrow> bool" where
  "less_eq_val NegInf _ = True"
| "less_eq_val _ PosInf = True"
| "less_eq_val (Fin a) (Fin b) = (a \<le> b)"
| "less_eq_val _ _ = False"

definition less_val :: "val \<Rightarrow> val \<Rightarrow> bool" where
  "less_val a b = (a \<le> b \<and> \<not> b \<le> (a::val))"

instance
proof
  fix x y z :: val
  show "(x < y) = (x \<le> y \<and> \<not> y \<le> x)" by (simp add: less_val_def)
  show "x \<le> x" by (cases x) auto
  show "x \<le> y \<Longrightarrow> y \<le> z \<Longrightarrow> x \<le> z" by (cases x; cases y; cases z) auto
  show "x \<le> y \<Longrightarrow> y \<le> x \<Longrightarrow> x = y" by (cases x; cases y) auto
  show "x \<le> y \<or> y \<le> x" by (cases x; cases y) auto
qed

end

section \<open>The rules engine, as the players use it\<close>

text \<open>
  The rules engine (\<^verbatim>\<open>game.py\<close>, \<^verbatim>\<open>investigate_game.py\<close>) is not part of the
  verified sources: the players only call it. A board is the square grid of cell owners
  that \<^verbatim>\<open>get_board\<close> returns (a numpy array of shape \<open>(N, N)\<close>): its side and its
  cells, \<open>cell b y x\<close> standing for \<^verbatim>\<open>board[y, x]\<close>. Owners are player ids, \<open>-1\<close> is
  the neutral owner.
\<close>

record board =
  side :: nat
  cell :: "nat \<Rightarrow> nat \<Rightarrow> int"

text \<open>
  The methods of \<^verbatim>\<open>InvestigateGame\<close> that \<^verbatim>\<open>min_max.py\<close> calls are parameters of
  the model. A transition is the triple (action, resulting state, key of that state).
\<close>

record ('g, 'a, 'k) rules =
  check_winner :: "'g \<Rightarrow> int"
  get_board :: "'g \<Rightarrow> board"
  generate_possible_transitions :: "'g \<Rightarrow> int \<Rightarrow> ('a \<times> 'g \<times> 'k) list"
  generate_canonical_transitions :: "'g \<Rightarrow> int \<Rightarrow> ('a \<times> 'g \<times> 'k) list"

datatype pyerr = ValueError | IndexError | UnboundLocalError

section \<open>min\_max.py: the players\<close>

datatype EntryMinMax = EntryMinMax (entry_depth: int) (entry_value: val)

record 'k MinMaxPlayer =
  player_id :: int
  opponent_player_id :: int
  depth :: int
  symmetries :: bool
  visited_max_states :: "'k \<rightharpoonup> EntryMinMax"
  visited_min_states :: "'k \<rightharpoonup> EntryMinMax"
  hit :: nat

definition MinMaxPlayer_init :: "int \<Rightarrow> int \<Rightarrow> bool \<Rightarrow> 'k MinMaxPlayer" where
  "MinMaxPlayer_init pid d use_sym =
     \<lparr>player_id = pid, opponent_player_id = abs (1 - pid), depth = d, symmetries = use_sym,
      visited_max_states = Map.empty, visited_min_states = Map.empty, hit = 0\<rparr>"

subsection \<open>evaluation\_function\<close>

text \<open>
  The lines examined: all rows \<^verbatim>\<open>board[y, :]\<close>, all columns \<^verbatim>\<open>board[:, x]\<close>, the
  principal diagonal \<^verbatim>\<open>board[y, y]\<close> and the secondary diagonal
  \<^verbatim>\<open>board[y, -(y + 1)]\<close>, in this order.
\<close>

definition board_lines :: "board \<Rightarrow> int list list" where
  "board_lines b =
     map (\<lambda>y. map (\<lambda>x. cell b y x) [0..<side b]) [0..<side b]
     @ map (\<lambda>x. map (\<lambda>y. cell b y x) [0..<side b]) [0..<side b]
     @ [map (\<lambda>y. cell b y y) [0..<side b]]
     @ [map (\<lambda>y. cell b y (side b - (y + 1))) [0..<side b]]"

text \<open>
  \<^verbatim>\<open>all(np.logical_or(line == p, line == neutral_pos))\<close>: every cell of the line is
  owned by \<open>p\<close> or neutral.
\<close>

definition all_taken_or_neutral :: "int \<Rightarrow> int list \<Rightarrow> bool" where
  "all_taken_or_neutral p line = list_all (\<lambda>c. c = p \<or> c = - 1) line"

text \<open>
  \<^verbatim>\<open>np.int16(x)\<close>, the conversion of a player id to the type of the board cells. An
  id from \<open>-32768\<close> to \<open>32767\<close> is kept. For an id outside this range the result
  depends on the numpy at hand: an older one wraps the id around, which is what
  \<open>np_int16\<close> computes, a newer one raises \<^verbatim>\<open>OverflowError\<close>. The properties of the
  evaluation below are stated for ids that fit (\<open>fits_int16\<close>), where both agree; the
  game's ids are 0 and 1.
\<close>

definition np_int16 :: "int \<Rightarrow> int" where
  "np_int16 x = (x + 32768) mod 65536 - 32768"

definition fits_int16 :: "int \<Rightarrow> bool" where
  "fits_int16 x = (- 32768 \<le> x \<and> x \<le> 32767)"

text \<open>One pass of the loop over the lines; the pair is (\<^verbatim>\<open>max_value\<close>, \<^verbatim>\<open>min_value\<close>).\<close>

definition count_line :: "int \<Rightarrow> int \<Rightarrow> int list \<Rightarrow> int \<times> int \<Rightarrow> int \<times> int" where
  "count_line max_player min_player line acc =
     (let acc1 = (if all_taken_or_neutral max_player line then (fst acc + 1, snd acc) else acc)
      in (if all_taken_or_neutral min_player line then (fst acc1, snd acc1 + 1) else acc1))"

definition evaluation_function ::
  "('g, 'a, 'k) rules \<Rightarrow> 'k MinMaxPlayer \<Rightarrow> 'g \<Rightarrow> val" where
  "evaluation_function R self game =
     (let winner = check_winner R game;
          max_player = player_id self;
          min_player = opponent_player_id self
      in if winner = max_player then PosInf
         else if winner = min_player then NegInf
         else (let counts = fold (count_line (np_int16 max_player) (np_int16 min_player))
                              (board_lines (get_board R game)) (0, 0)
               in Fin (fst counts - snd counts)))"

subsection \<open>MinMaxPlayer.max\_value and min\_value\<close>

text \<open>
  The cache test \<^verbatim>\<open>key in cache and depth <= cache[key].depth\<close>, and the transitions a
  node enumerates for the player \<open>p\<close> to move.
\<close>

definition cache_hit :: "('k \<rightharpoonup> EntryMinMax) \<Rightarrow> 'k \<Rightarrow> int \<Rightarrow> bool" where
  "cache_hit cache key d = (case cache key of None \<Rightarrow> False | Some e \<Rightarrow> d \<le> entry_depth e)"

definition cached_value :: "('k \<rightharpoonup> EntryMinMax) \<Rightarrow> 'k \<Rightarrow> val" where
  "cached_value cache key = (case cache key of None \<Rightarrow> NegInf | Some e \<Rightarrow> entry_value e)"

definition transitions_for ::
  "('g, 'a, 'k) rules \<Rightarrow> 'k MinMaxPlayer \<Rightarrow> 'g \<Rightarrow> int \<Rightarrow> ('a \<times> 'g \<times> 'k) list" where
  "transitions_for R self game p =
     (if symmetries self then generate_canonical_transitions R game p
      else generate_possible_transitions R game p)"

definition store_max :: "'k \<Rightarrow> int \<Rightarrow> val \<Rightarrow> 'k MinMaxPlayer \<Rightarrow> 'k MinMaxPlayer" where
  "store_max key d v self =
     self\<lparr>visited_max_states := (visited_max_states self)(key \<mapsto> EntryMinMax d v)\<rparr>"

definition store_min :: "'k \<Rightarrow> int \<Rightarrow> val \<Rightarrow> 'k MinMaxPlayer \<Rightarrow> 'k MinMaxPlayer" where
  "store_min key d v self =
     self\<lparr>visited_min_states := (visited_min_states self)(key \<mapsto> EntryMinMax d v)\<rparr>"

definition record_hit :: "'k MinMaxPlayer \<Rightarrow> 'k MinMaxPlayer" where
  "record_hit self = self\<lparr>hit := hit self + 1\<rparr>"

text \<open>
  The player object is passed in and returned updated. The \<^verbatim>\<open>for _, state, key in
  transitions\<close> loop is the function \<open>max_value_loop\<close>: its argument \<open>key\<close> is the
  Python variable \<^verbatim>\<open>key\<close>, which the loop header rebinds to the key of each child,
  so the store after the loop uses the value the variable holds then.
\<close>

function
  max_value :: "('g, 'a, 'k) rules \<Rightarrow> 'k MinMaxPlayer \<Rightarrow> 'g \<Rightarrow> 'k \<Rightarrow> int \<Rightarrow> val \<times> 'k MinMaxPlayer"
  and max_value_loop :: "('g, 'a, 'k) rules \<Rightarrow> 'k MinMaxPlayer \<Rightarrow> ('a \<times> 'g \<times> 'k) list \<Rightarrow> 'k \<Rightarrow> int \<Rightarrow> val \<Rightarrow> val \<times> 'k MinMaxPlayer"
  and min_value :: "('g, 'a, 'k) rules \<Rightarrow> 'k MinMaxPlayer \<Rightarrow> 'g \<Rightarrow> 'k \<Rightarrow> int \<Rightarrow> val \<times> 'k MinMaxPlayer"
  and min_value_loop :: "('g, 'a, 'k) rules \<Rightarrow> 'k MinMaxPlayer \<Rightarrow> ('a \<times> 'g \<times> 'k) list \<Rightarrow> 'k \<Rightarrow> int \<Rightarrow> val \<Rightarrow> val \<times> 'k MinMaxPlayer"
where
  "max_value R self game key d =
     (if cache_hit (visited_max_states self) key d
      then (cached_value (visited_max_states self) key, record_hit self)
      else if d \<le> 0 \<or> check_winner R game \<noteq> - 1
      then (evaluation_function R self game,
            store_max key 0 (evaluation_function R self game) self)
      else max_value_loop R self (transitions_for R self game (player_id self)) key d NegInf)"
| "max_value_loop R self [] key d v = (v, store_max key d v self)"
| "max_value_loop R self (t # ts) key d v =
     (case min_value R self (fst (snd t)) (snd (snd t)) (d - 1) of
        (v', self') \<Rightarrow> max_value_loop R self' ts (snd (snd t)) d (max v v'))"
| "min_value R self game key d =
     (if cache_hit (visited_min_states self) key d
      then (cached_value (visited_min_states self) key, record_hit self)
      else if d \<le> 0 \<or> check_winner R game \<noteq> - 1
      then (evaluation_function R self game,
            store_min key 0 (evaluation_function R self game) self)
      else min_value_loop R self (transitions_for R self game (opponent_player_id self)) key d PosInf)"
| "min_value_loop R self [] key d v = (v, store_min key d v self)"
| "min_value_loop R self (t # ts) key d v =
     (case max_value R self (fst (snd t)) (snd (snd t)) (d - 1) of
        (v', self') \<Rightarrow> min_value_loop R self' ts (snd (snd t)) d (min v v'))"
  by pat_completeness auto
termination
  by (relation "measures
        [\<lambda>x. case x of
            Inl (Inl (R, self, game, key, d)) \<Rightarrow> 2 * nat d
          | Inl (Inr (R, self, ts, key, d, v)) \<Rightarrow> 2 * nat d - 1
          | Inr (Inl (R, self, game, key, d)) \<Rightarrow> 2 * nat d
          | Inr (Inr (R, self, ts, key, d, v)) \<Rightarrow> 2 * nat d - 1,
         \<lambda>x. case x of
            Inl (Inl (R, self, game, key, d)) \<Rightarrow> 0
          | Inl (Inr (R, self, ts, key, d, v)) \<Rightarrow> Suc (length ts)
          | Inr (Inl (R, self, game, key, d)) \<Rightarrow> 0
          | Inr (Inr (R, self, ts, key, d, v)) \<Rightarrow> Suc (length ts)]")
     auto

subsection \<open>AlphaBetaMinMaxPlayer.max\_value and min\_value\<close>

text \<open>
  The subclass overrides both procedures; \<open>alpha\<close> and \<open>beta\<close> are the Python
  variables of these names and \<open>best\<close> is \<^verbatim>\<open>best_value\<close>. Inside the loop a child
  that improves \<^verbatim>\<open>best_value\<close> also raises \<^verbatim>\<open>alpha\<close> (lowers \<^verbatim>\<open>beta\<close>), and
  the cutoff test follows each child.
\<close>

function
  ab_max_value :: "('g, 'a, 'k) rules \<Rightarrow> 'k MinMaxPlayer \<Rightarrow> 'g \<Rightarrow> 'k \<Rightarrow> int \<Rightarrow> val \<Rightarrow> val \<Rightarrow> val \<times> 'k MinMaxPlayer"
  and ab_max_value_loop :: "('g, 'a, 'k) rules \<Rightarrow> 'k MinMaxPlayer \<Rightarrow> ('a \<times> 'g \<times> 'k) list \<Rightarrow> 'k \<Rightarrow> int \<Rightarrow> val \<Rightarrow> val \<Rightarrow> val \<Rightarrow> val \<times> 'k MinMaxPlayer"
  and ab_min_value :: "('g, 'a, 'k) rules \<Rightarrow> 'k MinMaxPlayer \<Rightarrow> 'g \<Rightarrow> 'k \<Rightarrow> int \<Rightarrow> val \<Rightarrow> val \<Rightarrow> val \<times> 'k MinMaxPlayer"
  and ab_min_value_loop :: "('g, 'a, 'k) rules \<Rightarrow> 'k MinMaxPlayer \<Rightarrow> ('a \<times> 'g \<times> 'k) list \<Rightarrow> 'k \<Rightarrow> int \<Rightarrow> val \<Rightarrow> val \<Rightarrow> val \<Rightarrow> val \<times> 'k MinMaxPlayer"
where
  "ab_max_value R self game key d alpha beta =
     (if cache_hit (visited_max_states self) key d
      then (cached_value (visited_max_states self) key, record_hit self)
      else if d \<le> 0 \<or> check_winner R game \<noteq> - 1
      then (evaluation_function R self game,
            store_max key 0 (evaluation_function R self game) self)
      else ab_max_value_loop R self (transitions_for R self game (player_id self))
             key d alpha beta NegInf)"
| "ab_max_value_loop R self [] key d alpha beta best = (best, store_max key d best self)"
| "ab_max_value_loop R self (t # ts) key d alpha beta best =
     (case ab_min_value R self (fst (snd t)) (snd (snd t)) (d - 1) alpha beta of
        (v, self') \<Rightarrow>
          (if (if v > best then v else best) \<ge> beta
           then ((if v > best then v else best),
                 store_max (snd (snd t)) d (if v > best then v else best) self')
           else ab_max_value_loop R self' ts (snd (snd t)) d
                  (if v > best then max alpha v else alpha) beta
                  (if v > best then v else best)))"
| "ab_min_value R self game key d alpha beta =
     (if cache_hit (visited_min_states self) key d
      then (cached_value (visited_min_states self) key, record_hit self)
      else if d \<le> 0 \<or> check_winner R game \<noteq> - 1
      then (evaluation_function R self game,
            store_min key 0 (evaluation_function R self game) self)
      else ab_min_value_loop R self (transitions_for R self game (opponent_player_id self))
             key d alpha beta PosInf)"
| "ab_min_value_loop R self [] key d alpha beta best = (best, store_min key d best self)"
| "ab_min_value_loop R self (t # ts) key d alpha beta best =
     (case ab_max_value R self (fst (snd t)) (snd (snd t)) (d - 1) alpha beta of
        (v, self') \<Rightarrow>
          (if (if v < best then v else best) \<le> alpha
           then ((if v < best then v else best),
                 store_min (snd (snd t)) d (if v < best then v else best) self')
           else ab_min_value_loop R self' ts (snd (snd t)) d
                  alpha (if v < best then min beta v else beta)
                  (if v < best then v else best)))"
  by pat_completeness auto
termination
  by (relation "measures
        [\<lambda>x. case x of
            Inl (Inl (R, self, game, key, d, alpha, beta)) \<Rightarrow> 2 * nat d
          | Inl (Inr (R, self, ts, key, d, alpha, beta, best)) \<Rightarrow> 2 * nat d - 1
          | Inr (Inl (R, self, game, key, d, alpha, beta)) \<Rightarrow> 2 * nat d
          | Inr (Inr (R, self, ts, key, d, alpha, beta, best)) \<Rightarrow> 2 * nat d - 1,
         \<lambda>x. case x of
            Inl (Inl (R, self, game, key, d, alpha, beta)) \<Rightarrow> 0
          | Inl (Inr (R, self, ts, key, d, alpha, beta, best)) \<Rightarrow> Suc (length ts)
          | Inr (Inl (R, self, game, key, d, alpha, beta)) \<Rightarrow> 0
          | Inr (Inr (R, self, ts, key, d, alpha, beta, best)) \<Rightarrow> Suc (length ts)]")
     auto

subsection \<open>make\_move of both players\<close>

text \<open>
  \<^verbatim>\<open>max(enumerate(actions), key=f)\<close> calls \<open>f\<close> once on every element, in order, and
  keeps the first element whose key is maximal: a later element replaces the current one
  only when its key is strictly greater. \<open>root_keys\<close> are those calls of \<open>f\<close>, each on
  the player object the previous one left; every element is paired with its key.
\<close>

fun max_by_key_from :: "'x \<times> val \<Rightarrow> ('x \<times> val) list \<Rightarrow> 'x \<times> val" where
  "max_by_key_from best [] = best"
| "max_by_key_from best (c # cs) = max_by_key_from (if snd c > snd best then c else best) cs"

fun root_keys ::
  "('g, 'a, 'k) rules \<Rightarrow> 'k MinMaxPlayer \<Rightarrow> nat \<Rightarrow> ('a \<times> 'g \<times> 'k) list
     \<Rightarrow> ((nat \<times> 'a) \<times> val) list \<times> 'k MinMaxPlayer" where
  "root_keys R self i [] = ([], self)"
| "root_keys R self i (t # ts) =
     (case min_value R self (fst (snd t)) (snd (snd t)) (depth self - 1) of
        (v, self1) \<Rightarrow>
          (case root_keys R self1 (Suc i) ts of
             (cs, self2) \<Rightarrow> (((i, fst t), v) # cs, self2)))"

fun ab_root_keys ::
  "('g, 'a, 'k) rules \<Rightarrow> 'k MinMaxPlayer \<Rightarrow> nat \<Rightarrow> ('a \<times> 'g \<times> 'k) list
     \<Rightarrow> ((nat \<times> 'a) \<times> val) list \<times> 'k MinMaxPlayer" where
  "ab_root_keys R self i [] = ([], self)"
| "ab_root_keys R self i (t # ts) =
     (case ab_min_value R self (fst (snd t)) (snd (snd t)) (depth self - 1) NegInf PosInf of
        (v, self1) \<Rightarrow>
          (case ab_root_keys R self1 (Suc i) ts of
             (cs, self2) \<Rightarrow> (((i, fst t), v) # cs, self2)))"

text \<open>
  The element \<^verbatim>\<open>max\<close> selects, with its key (the root search value of the chosen
  action) and the player object after the search. \<^verbatim>\<open>zip(*transitions)\<close> unpacked into
  three names raises \<^verbatim>\<open>ValueError\<close> when there is no transition.
\<close>

definition root_choice ::
  "('g, 'a, 'k) rules \<Rightarrow> 'k MinMaxPlayer \<Rightarrow> 'g
     \<Rightarrow> pyerr + (((nat \<times> 'a) \<times> val) \<times> 'k MinMaxPlayer)" where
  "root_choice R self game =
     (case transitions_for R self game (player_id self) of
        [] \<Rightarrow> Inl ValueError
      | t # ts \<Rightarrow>
          (case root_keys R self 0 (t # ts) of
             ([], self') \<Rightarrow> Inl ValueError
           | (c # cs, self') \<Rightarrow> Inr (max_by_key_from c cs, self')))"

definition ab_root_choice ::
  "('g, 'a, 'k) rules \<Rightarrow> 'k MinMaxPlayer \<Rightarrow> 'g
     \<Rightarrow> pyerr + (((nat \<times> 'a) \<times> val) \<times> 'k MinMaxPlayer)" where
  "ab_root_choice R self game =
     (case transitions_for R self game (player_id self) of
        [] \<Rightarrow> Inl ValueError
      | t # ts \<Rightarrow>
          (case ab_root_keys R self 0 (t # ts) of
             ([], self') \<Rightarrow> Inl ValueError
           | (c # cs, self') \<Rightarrow> Inr (max_by_key_from c cs, self')))"

definition make_move ::
  "('g, 'a, 'k) rules \<Rightarrow> 'k MinMaxPlayer \<Rightarrow> 'g \<Rightarrow> pyerr + ('a \<times> 'k MinMaxPlayer)" where
  "make_move R self game =
     (case root_choice R self game of
        Inl e \<Rightarrow> Inl e
      | Inr (c, self') \<Rightarrow> Inr (snd (fst c), self'))"

definition ab_make_move ::
  "('g, 'a, 'k) rules \<Rightarrow> 'k MinMaxPlayer \<Rightarrow> 'g \<Rightarrow> pyerr + ('a \<times> 'k MinMaxPlayer)" where
  "ab_make_move R self game =
     (case ab_root_choice R self game of
        Inl e \<Rightarrow> Inl e
      | Inr (c, self') \<Rightarrow> Inr (snd (fst c), self'))"

subsection \<open>The exact depth-bounded minimax value\<close>

text \<open>
  The value the two searches compute when no cached entry answers a query: the
  evaluation at a leaf, the maximum (minimum) over all children otherwise.
\<close>

function
  minimax_max :: "('g, 'a, 'k) rules \<Rightarrow> 'k MinMaxPlayer \<Rightarrow> 'g \<Rightarrow> int \<Rightarrow> val"
  and minimax_min :: "('g, 'a, 'k) rules \<Rightarrow> 'k MinMaxPlayer \<Rightarrow> 'g \<Rightarrow> int \<Rightarrow> val"
where
  "minimax_max R self game d =
     (if d \<le> 0 \<or> check_winner R game \<noteq> - 1 then evaluation_function R self game
      else fold (\<lambda>t v. max v (minimax_min R self (fst (snd t)) (d - 1)))
             (transitions_for R self game (player_id self)) NegInf)"
| "minimax_min R self game d =
     (if d \<le> 0 \<or> check_winner R game \<noteq> - 1 then evaluation_function R self game
      else fold (\<lambda>t v. min v (minimax_max R self (fst (snd t)) (d - 1)))
             (transitions_for R self game (opponent_player_id self)) PosInf)"
  by pat_completeness auto
termination
  by (relation "measure (\<lambda>x. case x of
          Inl (R, self, game, d) \<Rightarrow> nat d
        | Inr (R, self, game, d) \<Rightarrow> nat d)")
     auto

section \<open>monte\_carlo\_rl.py: the Monte Carlo player\<close>

text \<open>
  Python floats are read as real numbers. The fields keep their names; \<open>mc_gamma\<close>,
  \<open>mc_alpha\<close>, \<open>mc_depth\<close>, \<open>mc_symmetries\<close> and \<open>mc_rewards\<close> are
  \<^verbatim>\<open>_gamma\<close>, \<^verbatim>\<open>_alpha\<close>, \<^verbatim>\<open>_depth\<close>, \<^verbatim>\<open>_symmetries\<close> and \<^verbatim>\<open>_rewards\<close>.
\<close>

record 'k MonteCarloRLPlayer =
  state_values :: "'k \<rightharpoonup> real"
  n_episodes :: int
  mc_gamma :: real
  mc_alpha :: real
  exploration_rate :: real
  min_exploration_rate :: real
  exploration_decay_rate :: real
  minmax :: bool
  switch_ratio :: real
  mc_depth :: int
  mc_symmetries :: bool
  mc_rewards :: "int list"

definition MonteCarloRLPlayer_init ::
  "int \<Rightarrow> real \<Rightarrow> real \<Rightarrow> real \<Rightarrow> real \<Rightarrow> bool \<Rightarrow> real \<Rightarrow> int \<Rightarrow> bool
     \<Rightarrow> 'k MonteCarloRLPlayer" where
  "MonteCarloRLPlayer_init n g a min_rate decay_rate use_minmax ratio d use_sym =
     \<lparr>state_values = Map.empty, n_episodes = n, mc_gamma = g, mc_alpha = a,
      exploration_rate = 1, min_exploration_rate = min_rate,
      exploration_decay_rate = decay_rate, minmax = use_minmax, switch_ratio = ratio,
      mc_depth = d, mc_symmetries = use_sym, mc_rewards = []\<rparr>"

text \<open>
  What \<^verbatim>\<open>generate_possible_transitions\<close> yields reaches this file as Python tuples.
  \<^verbatim>\<open>min_max.py\<close> unpacks each of them into three names (action, state, key), which
  is the shape the interface of the rules engine has in the specification;
  \<^verbatim>\<open>monte_carlo_rl.py\<close> unpacks each of them into two names (action, state). A tuple
  is therefore kept with its length, and unpacking a tuple of three components into two
  names raises \<^verbatim>\<open>ValueError\<close>.
\<close>

datatype ('a, 'g, 'k) transition = Two 'a 'g | Three 'a 'g 'k

definition unpack_two :: "('a, 'g, 'k) transition \<Rightarrow> pyerr + ('a \<times> 'g)" where
  "unpack_two t = (case t of Two a g \<Rightarrow> Inr (a, g) | Three a g k \<Rightarrow> Inl ValueError)"

text \<open>
  What \<^verbatim>\<open>monte_carlo_rl.py\<close> calls of the rules engine and of the symmetry module.
  \<open>new_game\<close> is \<^verbatim>\<open>InvestigateGame(Game())\<close> and \<open>move_piece\<close> is
  \<^verbatim>\<open>game._Game__move(*move, player_idx)\<close>, which returns whether the move was legal
  and changes the game.
\<close>

record ('g, 'a, 'k) mc_rules =
  new_game :: 'g
  mc_check_winner :: "'g \<Rightarrow> int"
  get_current_player :: "'g \<Rightarrow> int"
  mc_possible_transitions :: "'g \<Rightarrow> int \<Rightarrow> ('a, 'g, 'k) transition list"
  get_transformed_states :: "'g \<Rightarrow> 'g list"
  get_hashable_state :: "'g \<Rightarrow> int \<Rightarrow> 'k"
  move_piece :: "'g \<Rightarrow> 'a \<Rightarrow> int \<Rightarrow> bool \<times> 'g"

text \<open>
  The random number generator and the opponents are the world \<open>'w\<close> around the
  learner: \<open>rand_float\<close> is \<^verbatim>\<open>random()\<close>, \<open>rand_below n\<close> is the index that
  \<^verbatim>\<open>choice\<close> draws for a sequence of length \<open>n\<close>, and \<open>opp_make_move i\<close> is
  \<^verbatim>\<open>make_move\<close> of the opponent object number \<open>i\<close>.
\<close>

record ('g, 'a, 'w) world_ops =
  rand_float :: "'w \<Rightarrow> real \<times> 'w"
  rand_below :: "nat \<Rightarrow> 'w \<Rightarrow> nat \<times> 'w"
  opp_make_move :: "nat \<Rightarrow> 'g \<Rightarrow> 'w \<Rightarrow> 'a \<times> 'w"

datatype who = Learner | Opponent nat

subsection \<open>The state-value table\<close>

text \<open>
  Modelled from the spec: the class \<^verbatim>\<open>MissNoAddDict\<close> of \<^verbatim>\<open>investigate_game.py\<close>,
  which is not among the sources. The spec gives the table the default value 0 for unseen
  keys and says that the default is materialized as a real zero entry on first read.
  \<open>table_read\<close> is \<^verbatim>\<open>self._state_values[key]\<close>: the value read and the table after the
  read. The membership test \<^verbatim>\<open>key in self._state_values\<close> is \<open>key \<in> dom V\<close>.
\<close>

definition table_read :: "('k \<rightharpoonup> real) \<Rightarrow> 'k \<Rightarrow> real \<times> ('k \<rightharpoonup> real)" where
  "table_read V key = (case V key of None \<Rightarrow> (0, V(key \<mapsto> 0)) | Some v \<Rightarrow> (v, V))"

subsection \<open>\_game\_reward and \_update\_state\_values\<close>

definition game_reward :: "who \<Rightarrow> int \<Rightarrow> int" where
  "game_reward player winner =
     (if winner = - 1 then - 1 else if Learner = player then 10 else - 10)"

text \<open>
  \<^verbatim>\<open>V[k] = V[k] + alpha * (G - V[k])\<close>: the right-hand side reads the table twice, then
  the entry is written.
\<close>

definition update_state_values ::
  "'k MonteCarloRLPlayer \<Rightarrow> 'k \<Rightarrow> real \<Rightarrow> 'k MonteCarloRLPlayer" where
  "update_state_values self state_repr_index return_of_rewards =
     (case table_read (state_values self) state_repr_index of
        (v1, V1) \<Rightarrow>
          (case table_read V1 state_repr_index of
             (v2, V2) \<Rightarrow>
               self\<lparr>state_values :=
                 V2(state_repr_index \<mapsto> v1 + mc_alpha self * (return_of_rewards - v2))\<rparr>))"

text \<open>
  The loop \<^verbatim>\<open>for state_repr_index, reward in trajectory[::-1]\<close>, on the entries in the
  order the loop sees them; \<open>G\<close> is \<^verbatim>\<open>return_of_rewards\<close>.
\<close>

fun update_loop ::
  "'k MonteCarloRLPlayer \<Rightarrow> ('k \<times> int) list \<Rightarrow> real \<Rightarrow> 'k MonteCarloRLPlayer" where
  "update_loop self [] G = self"
| "update_loop self (e # es) G =
     update_loop (update_state_values self (fst e) (real_of_int (snd e) + mc_gamma self * G))
       es (real_of_int (snd e) + mc_gamma self * G)"

definition backpropagate ::
  "'k MonteCarloRLPlayer \<Rightarrow> ('k \<times> int) list \<Rightarrow> 'k MonteCarloRLPlayer" where
  "backpropagate self trajectory = update_loop self (rev trajectory) 0"

subsection \<open>Canonical transitions, \_step\_training and make\_move\<close>

text \<open>\<^verbatim>\<open>min\<close> of a list raises \<^verbatim>\<open>ValueError\<close> on the empty list.\<close>

definition py_min :: "('k::linorder) list \<Rightarrow> pyerr + 'k" where
  "py_min xs = (case xs of [] \<Rightarrow> Inl ValueError | x # r \<Rightarrow> Inr (fold min r x))"

text \<open>
  The loop \<^verbatim>\<open>for a, state in transitions\<close> that builds \<^verbatim>\<open>canonical_transitions\<close>:
  every transition, unpacked, with the least key among the symmetric views of its state.
\<close>

fun canonical_transitions_of ::
  "('g, 'a, 'k::linorder) mc_rules \<Rightarrow> int \<Rightarrow> ('a, 'g, 'k) transition list
     \<Rightarrow> pyerr + ('a \<times> 'g \<times> 'k) list" where
  "canonical_transitions_of R p [] = Inr []"
| "canonical_transitions_of R p (t # ts) =
     (case unpack_two t of
        Inl e \<Rightarrow> Inl e
      | Inr (a, state) \<Rightarrow>
          (case py_min (map (\<lambda>s. get_hashable_state R s p) (get_transformed_states R state)) of
             Inl e \<Rightarrow> Inl e
           | Inr k \<Rightarrow>
               (case canonical_transitions_of R p ts of
                  Inl e \<Rightarrow> Inl e
                | Inr cs \<Rightarrow> Inr ((a, state, k) # cs))))"

text \<open>
  \<^verbatim>\<open>max(canonical_transitions, key=lambda t: self._state_values[t[2]])\<close>: the key of
  every element is read from the table, in order, and the first element with the greatest
  value is kept. \<open>greedy_from best bv\<close> continues with the current best element and its
  value.
\<close>

fun greedy_from ::
  "'x \<times> 'k \<Rightarrow> real \<Rightarrow> ('x \<times> 'k) list \<Rightarrow> ('k \<rightharpoonup> real) \<Rightarrow> ('x \<times> 'k) \<times> ('k \<rightharpoonup> real)" where
  "greedy_from best bv [] V = (best, V)"
| "greedy_from best bv (c # cs) V =
     (case table_read V (snd c) of
        (v, V') \<Rightarrow> (if v > bv then greedy_from c v cs V' else greedy_from best bv cs V'))"

definition greedy_choice ::
  "('x \<times> 'k) list \<Rightarrow> ('k \<rightharpoonup> real) \<Rightarrow> pyerr + (('x \<times> 'k) \<times> ('k \<rightharpoonup> real))" where
  "greedy_choice cs V =
     (case cs of
        [] \<Rightarrow> Inl ValueError
      | c # r \<Rightarrow> (case table_read V (snd c) of (v, V') \<Rightarrow> Inr (greedy_from c v r V')))"

text \<open>\<^verbatim>\<open>choice(seq)\<close> raises \<^verbatim>\<open>IndexError\<close> on an empty sequence.\<close>

definition choice :: "('g, 'a, 'w) world_ops \<Rightarrow> 'x list \<Rightarrow> 'w \<Rightarrow> pyerr + ('x \<times> 'w)" where
  "choice W xs w =
     (case xs of
        [] \<Rightarrow> Inl IndexError
      | _ \<Rightarrow> (case rand_below W (length xs) w of (i, w') \<Rightarrow> Inr (xs ! (i mod length xs), w')))"

text \<open>The result is (action, next state, canonical key), the player and the world.\<close>

definition step_training ::
  "('g, 'a, 'w) world_ops \<Rightarrow> ('g, 'a, 'k::linorder) mc_rules \<Rightarrow> 'k MonteCarloRLPlayer \<Rightarrow> 'g \<Rightarrow> int
     \<Rightarrow> 'w \<Rightarrow> pyerr + (('a \<times> 'g \<times> 'k) \<times> 'k MonteCarloRLPlayer \<times> 'w)" where
  "step_training W R self game p w =
     (case canonical_transitions_of R p (mc_possible_transitions R game p) of
        Inl e \<Rightarrow> Inl e
      | Inr cts \<Rightarrow>
          (case rand_float W w of
             (u, w1) \<Rightarrow>
               (if u < exploration_rate self
                then (case choice W cts w1 of
                        Inl e \<Rightarrow> Inl e
                      | Inr (c, w2) \<Rightarrow> Inr (c, self, w2))
                else (case greedy_choice (map (\<lambda>t. ((fst t, fst (snd t)), snd (snd t))) cts)
                             (state_values self) of
                        Inl e \<Rightarrow> Inl e
                      | Inr (c, V') \<Rightarrow>
                          Inr ((fst (fst c), snd (fst c), snd c),
                               self\<lparr>state_values := V'\<rparr>, w1)))))"

definition mc_make_move ::
  "('g, 'a, 'w) world_ops \<Rightarrow> ('g, 'a, 'k::linorder) mc_rules \<Rightarrow> 'k MonteCarloRLPlayer \<Rightarrow> 'g
     \<Rightarrow> 'w \<Rightarrow> pyerr + ('a \<times> 'k MonteCarloRLPlayer \<times> 'w)" where
  "mc_make_move W R self game w =
     (let p = get_current_player R game;
          transitions = mc_possible_transitions R game p
      in case canonical_transitions_of R p transitions of
           Inl e \<Rightarrow> Inl e
         | Inr cts \<Rightarrow>
             (if list_ex (\<lambda>t. snd (snd t) \<in> dom (state_values self)) cts
              then (case greedy_choice (map (\<lambda>t. (fst t, snd (snd t))) cts) (state_values self) of
                      Inl e \<Rightarrow> Inl e
                    | Inr (c, V') \<Rightarrow> Inr (fst c, self\<lparr>state_values := V'\<rparr>, w))
              else (case choice W transitions w of
                      Inl e \<Rightarrow> Inl e
                    | Inr (t, w') \<Rightarrow>
                        (case unpack_two t of
                           Inl e \<Rightarrow> Inl e
                         | Inr (a, state) \<Rightarrow> Inr (a, self, w')))))"

subsection \<open>train\<close>

text \<open>
  The local variables of one episode of \<^verbatim>\<open>train\<close>. \<open>lv_player\<close> and \<open>lv_key\<close> are
  \<^verbatim>\<open>player\<close> and \<^verbatim>\<open>canonical_state_repr_index\<close>, which have no value before the loop
  assigns them; \<open>lv_self\<close> is the learner and \<open>lv_world\<close> the world around it.
\<close>

record ('g, 'a, 'k, 'w) loop_vars =
  lv_game :: 'g
  lv_trajectory :: "('k \<times> int) list"
  lv_winner :: int
  lv_player_idx :: int
  lv_player :: "who option"
  lv_last_action :: "'a option"
  lv_counter :: int
  lv_key :: "'k option"
  lv_self :: "'k MonteCarloRLPlayer"
  lv_world :: 'w

text \<open>
  The opponent's turn: \<^verbatim>\<open>while not ok\<close> asks the opponent for a move until the rules
  engine accepts one. The loop has no bound of its own, so the model counts fuel and
  \<open>None\<close> stands for a loop that has not ended when the fuel is used up.
\<close>

fun opponent_turn ::
  "nat \<Rightarrow> ('g, 'a, 'w) world_ops \<Rightarrow> ('g, 'a, 'k) mc_rules \<Rightarrow> nat \<Rightarrow> 'g \<Rightarrow> int \<Rightarrow> 'w
     \<Rightarrow> ('g \<times> 'w) option" where
  "opponent_turn 0 W R i game idx w = None"
| "opponent_turn (Suc n) W R i game idx w =
     (case opp_make_move W i game w of
        (m, w') \<Rightarrow>
          (case move_piece R game m idx of
             (ok, game') \<Rightarrow>
               (if ok then Some (game', w') else opponent_turn n W R i game' idx w')))"

text \<open>The \<^verbatim>\<open>while winner < 0 and counter < max_steps_draw\<close> loop, on fuel as well.\<close>

fun play_loop ::
  "nat \<Rightarrow> ('g, 'a, 'w) world_ops \<Rightarrow> ('g, 'a, 'k::linorder) mc_rules \<Rightarrow> who \<times> who \<Rightarrow> int
     \<Rightarrow> ('g, 'a, 'k, 'w) loop_vars \<Rightarrow> (pyerr + ('g, 'a, 'k, 'w) loop_vars) option" where
  "play_loop 0 W R players max_steps_draw lv = None"
| "play_loop (Suc n) W R players max_steps_draw lv =
     (if lv_winner lv < 0 \<and> lv_counter lv < max_steps_draw
      then (case (if (lv_player_idx lv + 1) mod 2 = 0 then fst players else snd players) of
              Learner \<Rightarrow>
                (case step_training W R (lv_self lv) (lv_game lv) ((lv_player_idx lv + 1) mod 2)
                        (lv_world lv) of
                   Inl e \<Rightarrow> Some (Inl e)
                 | Inr (c, self', w') \<Rightarrow>
                     play_loop n W R players max_steps_draw
                       (lv\<lparr>lv_player_idx := (lv_player_idx lv + 1) mod 2,
                           lv_player := Some Learner,
                           lv_game := fst (snd c),
                           lv_key := Some (snd (snd c)),
                           lv_trajectory := lv_trajectory lv @ [(snd (snd c), 0)],
                           lv_counter :=
                             (if lv_last_action lv = Some (fst c) then lv_counter lv + 1 else 0),
                           lv_last_action :=
                             (if lv_last_action lv = Some (fst c) then lv_last_action lv
                              else Some (fst c)),
                           lv_self := self',
                           lv_world := w',
                           lv_winner := mc_check_winner R (fst (snd c))\<rparr>))
            | Opponent i \<Rightarrow>
                (case opponent_turn n W R i (lv_game lv) ((lv_player_idx lv + 1) mod 2)
                        (lv_world lv) of
                   None \<Rightarrow> None
                 | Some (game', w') \<Rightarrow>
                     play_loop n W R players max_steps_draw
                       (lv\<lparr>lv_player_idx := (lv_player_idx lv + 1) mod 2,
                           lv_player := Some (Opponent i),
                           lv_game := game',
                           lv_world := w',
                           lv_winner := mc_check_winner R game'\<rparr>)))
      else Some (Inr lv))"

text \<open>\<^verbatim>\<open>np.clip(a, a_min, a_max)\<close> is \<^verbatim>\<open>minimum(a_max, maximum(a, a_min))\<close>.\<close>

definition np_clip :: "real \<Rightarrow> real \<Rightarrow> real \<Rightarrow> real" where
  "np_clip a a_min a_max = min a_max (max a a_min)"

text \<open>The exploration rate that the episode with index \<open>episode\<close> assigns.\<close>

definition exploration_rate_after :: "'k MonteCarloRLPlayer \<Rightarrow> nat \<Rightarrow> real" where
  "exploration_rate_after self episode =
     np_clip (exp (- exploration_decay_rate self * real episode)) (min_exploration_rate self) 1"

text \<open>
  What follows the loop in one episode: the exploration rate, the last entry of the
  trajectory replaced by the entry with the game reward, the reward history and the
  update of the table. \<^verbatim>\<open>trajectory.pop()\<close> raises \<^verbatim>\<open>IndexError\<close> on an empty
  trajectory.
\<close>

definition finish_episode ::
  "nat \<Rightarrow> ('g, 'a, 'k, 'w) loop_vars \<Rightarrow> pyerr + ('k MonteCarloRLPlayer \<times> 'w)" where
  "finish_episode episode lv =
     (let self1 = (lv_self lv)\<lparr>exploration_rate := exploration_rate_after (lv_self lv) episode\<rparr>
      in case lv_trajectory lv of
           [] \<Rightarrow> Inl IndexError
         | _ \<Rightarrow>
             (case lv_player lv of
                None \<Rightarrow> Inl UnboundLocalError
              | Some player \<Rightarrow>
                  (case lv_key lv of
                     None \<Rightarrow> Inl UnboundLocalError
                   | Some key \<Rightarrow>
                       (let reward = game_reward player (lv_winner lv);
                            trajectory = butlast (lv_trajectory lv) @ [(key, reward)];
                            self2 = self1\<lparr>mc_rewards := mc_rewards self1 @ [reward]\<rparr>
                        in Inr (backpropagate self2 trajectory, lv_world lv)))))"

definition episode_start ::
  "('g, 'a, 'k) mc_rules \<Rightarrow> 'k MonteCarloRLPlayer \<Rightarrow> 'w \<Rightarrow> ('g, 'a, 'k, 'w) loop_vars" where
  "episode_start R self w =
     \<lparr>lv_game = new_game R, lv_trajectory = [], lv_winner = - 1, lv_player_idx = 1,
      lv_player = None, lv_last_action = None, lv_counter = 0, lv_key = None,
      lv_self = self, lv_world = w\<rparr>"

definition run_episode ::
  "nat \<Rightarrow> ('g, 'a, 'w) world_ops \<Rightarrow> ('g, 'a, 'k::linorder) mc_rules \<Rightarrow> who \<times> who \<Rightarrow> int \<Rightarrow> nat
     \<Rightarrow> 'k MonteCarloRLPlayer \<Rightarrow> 'w \<Rightarrow> (pyerr + ('k MonteCarloRLPlayer \<times> 'w)) option" where
  "run_episode fuel W R players max_steps_draw episode self w =
     (case play_loop fuel W R players max_steps_draw (episode_start R self w) of
        None \<Rightarrow> None
      | Some (Inl e) \<Rightarrow> Some (Inl e)
      | Some (Inr lv) \<Rightarrow> Some (finish_episode episode lv))"

text \<open>\<^verbatim>\<open>math.isclose\<close> with its default tolerances.\<close>

definition isclose :: "real \<Rightarrow> real \<Rightarrow> bool" where
  "isclose a b = (\<bar>a - b\<bar> \<le> max (1 / 10 ^ 9 * max \<bar>a\<bar> \<bar>b\<bar>) 0)"

text \<open>
  The loop over the episodes. \<open>pt\<close> is \<^verbatim>\<open>player_tuples\<close>; the opponents 0 and 1 are
  the two \<^verbatim>\<open>RandomPlayer\<close> objects, 2 and 3 the two \<^verbatim>\<open>MinMaxPlayer\<close> objects.
\<close>

fun train_episodes ::
  "nat \<Rightarrow> ('g, 'a, 'w) world_ops \<Rightarrow> ('g, 'a, 'k::linorder) mc_rules \<Rightarrow> int \<Rightarrow> nat list
     \<Rightarrow> (who \<times> who) \<times> (who \<times> who) \<Rightarrow> 'k MonteCarloRLPlayer \<Rightarrow> 'w
     \<Rightarrow> (pyerr + ('k MonteCarloRLPlayer \<times> 'w)) option" where
  "train_episodes fuel W R max_steps_draw [] pt self w = Some (Inr (self, w))"
| "train_episodes fuel W R max_steps_draw (episode # rest) pt self w =
     (case run_episode fuel W R
             (fst (if minmax self
                      \<and> isclose (switch_ratio self) (real episode / real_of_int (n_episodes self))
                   then ((Opponent 2, Learner), (Learner, Opponent 3)) else pt))
             max_steps_draw episode self w of
        None \<Rightarrow> None
      | Some (Inl e) \<Rightarrow> Some (Inl e)
      | Some (Inr (self', w')) \<Rightarrow>
          train_episodes fuel W R max_steps_draw rest
            (let pt1 = (if minmax self
                          \<and> isclose (switch_ratio self) (real episode / real_of_int (n_episodes self))
                        then ((Opponent 2, Learner), (Learner, Opponent 3)) else pt)
             in (snd pt1, fst pt1))
            self' w')"

text \<open>
  \<^verbatim>\<open>train\<close>: all episodes, then the two summary lines; \<^verbatim>\<open>self._rewards[-1]\<close> raises
  \<^verbatim>\<open>IndexError\<close> when no episode was run.
\<close>

definition train ::
  "nat \<Rightarrow> ('g, 'a, 'w) world_ops \<Rightarrow> ('g, 'a, 'k::linorder) mc_rules \<Rightarrow> 'k MonteCarloRLPlayer \<Rightarrow> int
     \<Rightarrow> 'w \<Rightarrow> (pyerr + ('k MonteCarloRLPlayer \<times> 'w)) option" where
  "train fuel W R self max_steps_draw w =
     (case train_episodes fuel W R max_steps_draw [0..<nat (n_episodes self)]
             ((Opponent 0, Learner), (Learner, Opponent 1)) self w of
        None \<Rightarrow> None
      | Some (Inl e) \<Rightarrow> Some (Inl e)
      | Some (Inr (self', w')) \<Rightarrow>
          (if mc_rewards self' = [] then Some (Inl IndexError) else Some (Inr (self', w'))))"

section \<open>The claims' own notions\<close>

text \<open>
  The score as the specification words it: the number of lines of the board that hold no
  cell of the min player, minus the number of lines that hold no cell of the max player.
\<close>

definition open_lines_score :: "int \<Rightarrow> int \<Rightarrow> board \<Rightarrow> int" where
  "open_lines_score max_player min_player b =
     int (length (filter (\<lambda>line. min_player \<notin> set line) (board_lines b)))
     - int (length (filter (\<lambda>line. max_player \<notin> set line) (board_lines b)))"

text \<open>Every cell of the board is neutral or owned by one of the two players.\<close>

definition cells_owned_by :: "int \<Rightarrow> int \<Rightarrow> board \<Rightarrow> bool" where
  "cells_owned_by max_player min_player b =
     list_all (\<lambda>y. list_all (\<lambda>x. cell b y x = - 1 \<or> cell b y x = max_player
                                    \<or> cell b y x = min_player) [0..<side b]) [0..<side b]"


text \<open>The value of a key in the table, 0 for a key the table does not hold.\<close>

definition value_of :: "('k \<rightharpoonup> real) \<Rightarrow> 'k \<Rightarrow> real" where
  "value_of V key = (case V key of None \<Rightarrow> 0 | Some v \<Rightarrow> v)"



text \<open>Two player objects with the same ids, depth and symmetry flag.\<close>

definition same_config :: "'k MinMaxPlayer \<Rightarrow> 'k MinMaxPlayer \<Rightarrow> bool" where
  "same_config s s' =
     (player_id s' = player_id s \<and> opponent_player_id s' = opponent_player_id s
      \<and> depth s' = depth s \<and> symmetries s' = symmetries s)"

section \<open>Example games\<close>

definition empty_board :: "nat \<Rightarrow> board" where
  "empty_board n = \<lparr>side = n, cell = (\<lambda>y x. - 1)\<rparr>"

text \<open>
  A game with five states, each its own key. Player 0 moves from state 0 to state 1 or to
  state 2; player 1 moves from state 1 to state 3 or to state 2, and from state 2 to
  state 4. State 3 is won by player 1; every board is the empty board of side 1.
\<close>

definition small_game :: "(nat, nat, nat) rules" where
  "small_game =
     \<lparr>check_winner = (\<lambda>g. if g = 3 then 1 else - 1),
      get_board = (\<lambda>g. empty_board 1),
      generate_possible_transitions = (\<lambda>g p.
         if g = 0 \<and> p = 0 then [(0, 1, 1), (1, 2, 2)]
         else if g = 1 \<and> p = 1 then [(0, 3, 3), (1, 2, 2)]
         else if g = 2 \<and> p = 1 then [(0, 4, 4)]
         else []),
      generate_canonical_transitions = (\<lambda>g p. [])\<rparr>"

text \<open>
  Four positions on boards of side 3: position 0 is open, position 1 is won by player 0,
  position 2 is won by player 1 and position 3 is the empty board.
\<close>

definition some_positions :: "(nat, nat, nat) rules" where
  "some_positions =
     \<lparr>check_winner = (\<lambda>g. if g = 1 then 0 else if g = 2 then 1 else - 1),
      get_board = (\<lambda>g. if g = 3 then empty_board 3
         else \<lparr>side = 3, cell = (\<lambda>y x. [[0, - 1, 1], [- 1, 0, - 1], [- 1, - 1, - 1]] ! y ! x)\<rparr>),
      generate_possible_transitions = (\<lambda>g p. []),
      generate_canonical_transitions = (\<lambda>g p. [])\<rparr>"

text \<open>
  A game for the Monte Carlo player, with transitions of two components: from the new
  game (state 0) the only move, action 7, leads to state 1, which the rules engine
  reports as won by player 0 and which has no move. Every state is its only symmetric
  view and its own key.
\<close>

definition mc_small_game :: "(nat, nat, nat) mc_rules" where
  "mc_small_game =
     \<lparr>new_game = 0,
      mc_check_winner = (\<lambda>g. if g = 1 then 0 else - 1),
      get_current_player = (\<lambda>g. 0),
      mc_possible_transitions = (\<lambda>g p. if g = 0 then [Two 7 1] else []),
      get_transformed_states = (\<lambda>g. [g]),
      get_hashable_state = (\<lambda>g p. g),
      move_piece = (\<lambda>g m i. (True, g))\<rparr>"

text \<open>
  A world whose state counts the draws: \<^verbatim>\<open>random()\<close> gives 1/2, \<^verbatim>\<open>choice\<close> takes
  the first element, and every opponent answers with action 0.
\<close>

definition fixed_world :: "(nat, nat, nat) world_ops" where
  "fixed_world =
     \<lparr>rand_float = (\<lambda>w. (1 / 2, Suc w)),
      rand_below = (\<lambda>n w. (0, Suc w)),
      opp_make_move = (\<lambda>i g w. (0, Suc w))\<rparr>"

text \<open>The Monte Carlo player with the default hyperparameters and one episode.\<close>

definition default_learner :: "nat MonteCarloRLPlayer" where
  "default_learner =
     MonteCarloRLPlayer_init 1 (95 / 100) (1 / 10) (1 / 100) (3 / 100000) False (9 / 10) 1 False"

text \<open>
  The rules engine of \<^verbatim>\<open>min_max.py\<close> as \<^verbatim>\<open>monte_carlo_rl.py\<close> sees it: the same
  method \<^verbatim>\<open>generate_possible_transitions\<close>, so the same tuples of three components.
  Player 0 is to move, every state is its only symmetric view and its own key.
\<close>

definition seen_by_monte_carlo :: "(nat, nat, nat) rules \<Rightarrow> (nat, nat, nat) mc_rules" where
  "seen_by_monte_carlo R =
     \<lparr>new_game = 0,
      mc_check_winner = check_winner R,
      get_current_player = (\<lambda>g. 0),
      mc_possible_transitions = (\<lambda>g p.
         map (\<lambda>t. Three (fst t) (fst (snd t)) (snd (snd t))) (generate_possible_transitions R g p)),
      get_transformed_states = (\<lambda>g. [g]),
      get_hashable_state = (\<lambda>g p. g),
      move_piece = (\<lambda>g m i. (True, g))\<rparr>"

text \<open>
  A game with seven states, each its own key. Player 0 moves from state 0 to state 1,
  from state 1 to state 4, from state 5 to state 1, and from state 6 to state 2 or to
  state 3; player 1 moves from state 1 to state 2. State 2 is won by player 0 and state 4
  by player 1; every board is the empty board of side 1.
\<close>

definition cache_game :: "(nat, nat, nat) rules" where
  "cache_game =
     \<lparr>check_winner = (\<lambda>g. if g = 2 then 0 else if g = 4 then 1 else - 1),
      get_board = (\<lambda>g. empty_board 1),
      generate_possible_transitions = (\<lambda>g p.
         if g = 0 \<and> p = 0 then [(0, 1, 1)]
         else if g = 1 \<and> p = 1 then [(0, 2, 2)]
         else if g = 1 \<and> p = 0 then [(0, 4, 4)]
         else if g = 5 \<and> p = 0 then [(0, 1, 1)]
         else if g = 6 \<and> p = 0 then [(0, 2, 2), (1, 3, 3)]
         else []),
      generate_canonical_transitions = (\<lambda>g p. [])\<rparr>"

text \<open>
  A fresh player 0 after the search of state 0 of this game as the max role to depth 3,
  and the same player after a further search of state 5 to depth 1.
\<close>

definition searched_once :: "nat MinMaxPlayer" where
  "searched_once = snd (max_value cache_game (MinMaxPlayer_init 0 3 False) 0 0 3)"

definition searched_twice :: "nat MinMaxPlayer" where
  "searched_twice = snd (max_value cache_game searched_once 5 5 1)"

section \<open>Properties of the search\<close>

lemma val_less_simps [simp]:
  "NegInf < Fin a" "NegInf < PosInf" "Fin a < PosInf" "(Fin a < Fin b) = (a < b)"
  "\<not> x < NegInf" "\<not> PosInf < x"
  by (cases x; auto simp: less_val_def)+

lemma val_le_simps [simp]: "(x \<le> NegInf) = (x = NegInf)" "(PosInf \<le> x) = (x = PosInf)"
  by (cases x; auto)+

lemma val_max_min_simps [simp]:
  "max NegInf x = x" "max x NegInf = x" "min PosInf x = x" "min x PosInf = x"
  "max PosInf x = PosInf" "max x PosInf = PosInf" "min NegInf x = NegInf" "min x NegInf = NegInf"
  by (cases x; simp add: max_def min_def)+

subsection \<open>Cache hits\<close>

text \<open>
  A query that finds an entry of at least the requested depth under its key, in the
  cache of its role, returns the stored value at once, in both engines: the player
  object is unchanged but for the hit counter, which is one greater, and the result does
  not depend on the state or on the rules.
\<close>

lemma cached_entry_answers:
  "(visited_max_states self key = Some e \<and> d \<le> entry_depth e \<longrightarrow>
      max_value R self game key d = (entry_value e, self\<lparr>hit := hit self + 1\<rparr>) \<and>
      ab_max_value R self game key d alpha beta = (entry_value e, self\<lparr>hit := hit self + 1\<rparr>)) \<and>
   (visited_min_states self key = Some e \<and> d \<le> entry_depth e \<longrightarrow>
      min_value R self game key d = (entry_value e, self\<lparr>hit := hit self + 1\<rparr>) \<and>
      ab_min_value R self game key d alpha beta = (entry_value e, self\<lparr>hit := hit self + 1\<rparr>))"
  by (simp add: cache_hit_def cached_value_def record_hit_def)

subsection \<open>The evaluation function\<close>

lemma length_board_lines: "length (board_lines b) = 2 * side b + 2"
  by (simp add: board_lines_def)

lemma fold_count_line:
  "fold (count_line a b) ls acc =
     (fst acc + int (length (filter (all_taken_or_neutral a) ls)),
      snd acc + int (length (filter (all_taken_or_neutral b) ls)))"
  by (induction ls arbitrary: acc) (auto simp: count_line_def Let_def)

lemma board_lines_cells:
  assumes "line \<in> set (board_lines b)" and "c \<in> set line"
  shows "\<exists>y<side b. \<exists>x<side b. c = cell b y x"
proof -
  have "side b - Suc y < side b" if "y < side b" for y using that by simp
  then show ?thesis
    using assms unfolding board_lines_def by (auto; blast)
qed

lemma open_iff_no_other:
  assumes "cells_owned_by p q b" and "p \<noteq> q" and "q \<noteq> - 1" and "line \<in> set (board_lines b)"
  shows "all_taken_or_neutral p line \<longleftrightarrow> q \<notin> set line"
proof -
  have "\<And>c. c \<in> set line \<Longrightarrow> c = - 1 \<or> c = p \<or> c = q"
    using board_lines_cells[OF assms(4)] assms(1) by (fastforce simp: cells_owned_by_def list_all_iff)
  then show ?thesis
    using assms(2,3) by (auto simp: all_taken_or_neutral_def list_all_iff)
qed

lemma np_int16_fits: "fits_int16 x \<Longrightarrow> np_int16 x = x"
  by (simp add: fits_int16_def np_int16_def)

lemma evaluation_counts:
  assumes "check_winner R game \<noteq> player_id self" and "check_winner R game \<noteq> opponent_player_id self"
    and "fits_int16 (player_id self)" and "fits_int16 (opponent_player_id self)"
  shows "evaluation_function R self game =
    Fin (int (length (filter (all_taken_or_neutral (player_id self)) (board_lines (get_board R game))))
       - int (length (filter (all_taken_or_neutral (opponent_player_id self)) (board_lines (get_board R game)))))"
  using assms by (simp add: evaluation_function_def Let_def fold_count_line np_int16_fits)

text \<open>
  C5. The evaluation is \<open>+\<infinity>\<close> on a state won by the max player and \<open>-\<infinity>\<close> on a state
  won by the min player. On every other state whose cells are neutral or owned by one of
  the two players, the board has \<open>2N + 2\<close> lines and the evaluation is the number of
  lines with no cell of the min player minus the number of lines with no cell of the max
  player; on an empty board it is 0. The player ids are those the constructor sets (the
  opponent's id is \<open>|1 - player_id|\<close>), the player's id is not the neutral owner, and
  where the code converts the ids to \<^verbatim>\<open>np.int16\<close> both ids fit that type.
\<close>

theorem evaluation_function_spec:
  "(check_winner R game = player_id self \<longrightarrow> evaluation_function R self game = PosInf) \<and>
   (opponent_player_id self = \<bar>1 - player_id self\<bar> \<and> check_winner R game = opponent_player_id self
      \<longrightarrow> evaluation_function R self game = NegInf) \<and>
   (opponent_player_id self = \<bar>1 - player_id self\<bar> \<and> player_id self \<noteq> - 1 \<and>
    fits_int16 (player_id self) \<and> fits_int16 (opponent_player_id self) \<and>
    check_winner R game \<noteq> player_id self \<and> check_winner R game \<noteq> opponent_player_id self \<and>
    cells_owned_by (player_id self) (opponent_player_id self) (get_board R game)
      \<longrightarrow> length (board_lines (get_board R game)) = 2 * side (get_board R game) + 2 \<and>
          evaluation_function R self game =
            Fin (open_lines_score (player_id self) (opponent_player_id self) (get_board R game))) \<and>
   (fits_int16 (player_id self) \<and> fits_int16 (opponent_player_id self) \<and>
    check_winner R game \<noteq> player_id self \<and> check_winner R game \<noteq> opponent_player_id self \<and>
    get_board R game = empty_board n
      \<longrightarrow> evaluation_function R self game = Fin 0)"
proof (intro conjI impI)
  assume "check_winner R game = player_id self"
  then show "evaluation_function R self game = PosInf"
    by (simp add: evaluation_function_def)
next
  assume a: "opponent_player_id self = \<bar>1 - player_id self\<bar> \<and> check_winner R game = opponent_player_id self"
  then have "check_winner R game \<noteq> player_id self" by arith
  with a show "evaluation_function R self game = NegInf"
    by (simp add: evaluation_function_def)
next
  show "length (board_lines (get_board R game)) = 2 * side (get_board R game) + 2"
    by (rule length_board_lines)
next
  assume a: "opponent_player_id self = \<bar>1 - player_id self\<bar> \<and> player_id self \<noteq> - 1 \<and>
    fits_int16 (player_id self) \<and> fits_int16 (opponent_player_id self) \<and>
    check_winner R game \<noteq> player_id self \<and> check_winner R game \<noteq> opponent_player_id self \<and>
    cells_owned_by (player_id self) (opponent_player_id self) (get_board R game)"
  let ?p = "player_id self" and ?q = "opponent_player_id self" and ?b = "get_board R game"
  from a have pq: "?p \<noteq> ?q" "?q \<noteq> - 1" "?p \<noteq> - 1" by arith+
  from a have own: "cells_owned_by ?p ?q ?b" by blast
  then have own': "cells_owned_by ?q ?p ?b" by (auto simp: cells_owned_by_def list_all_iff)
  have 1: "filter (all_taken_or_neutral ?p) (board_lines ?b) = filter (\<lambda>line. ?q \<notin> set line) (board_lines ?b)"
    by (rule filter_cong[OF refl]) (rule open_iff_no_other[OF own pq(1) pq(2)])
  have 2: "filter (all_taken_or_neutral ?q) (board_lines ?b) = filter (\<lambda>line. ?p \<notin> set line) (board_lines ?b)"
    by (rule filter_cong[OF refl]) (rule open_iff_no_other[OF own' pq(1)[symmetric] pq(3)])
  from a have "check_winner R game \<noteq> ?p" "check_winner R game \<noteq> ?q"
    "fits_int16 ?p" "fits_int16 ?q" by blast+
  then show "evaluation_function R self game = Fin (open_lines_score ?p ?q ?b)"
    by (simp add: evaluation_counts open_lines_score_def 1 2)
next
  assume a: "fits_int16 (player_id self) \<and> fits_int16 (opponent_player_id self) \<and>
    check_winner R game \<noteq> player_id self \<and> check_winner R game \<noteq> opponent_player_id self \<and>
    get_board R game = empty_board n"
  have "\<And>p. filter (all_taken_or_neutral p) (board_lines (empty_board n)) = board_lines (empty_board n)"
    by (auto simp: filter_id_conv board_lines_def empty_board_def all_taken_or_neutral_def list_all_iff)
  with a show "evaluation_function R self game = Fin 0"
    by (simp add: evaluation_counts)
qed

theorem evaluation_function_spec_witness:
  "evaluation_function some_positions (MinMaxPlayer_init 0 3 False) 1 = PosInf \<and>
   evaluation_function some_positions (MinMaxPlayer_init 0 3 False) 2 = NegInf \<and>
   length (board_lines (get_board some_positions 0)) = 8 \<and>
   evaluation_function some_positions (MinMaxPlayer_init 0 3 False) 0 = Fin 3 \<and>
   evaluation_function some_positions (MinMaxPlayer_init 0 3 False) 3 = Fin 0"
proof -
  have own: "cells_owned_by 0 1 (get_board some_positions 0)"
    by code_simp
  have score: "open_lines_score 0 1 (get_board some_positions 0) = 3"
    by code_simp
  show ?thesis
    using own score
      evaluation_function_spec [of some_positions 1 "MinMaxPlayer_init 0 3 False" 0]
      evaluation_function_spec [of some_positions 2 "MinMaxPlayer_init 0 3 False" 0]
      evaluation_function_spec [of some_positions 0 "MinMaxPlayer_init 0 3 False" 0]
      evaluation_function_spec [of some_positions 3 "MinMaxPlayer_init 0 3 False" 3]
    by (simp add: MinMaxPlayer_init_def some_positions_def fits_int16_def)
qed

subsection \<open>The cutoff of the alpha-beta search\<close>

lemma improved_is_max: "(if v > best then v else best) = max best (v::val)"
  by (auto simp: max_def)

lemma improved_is_min: "(if v < best then v else best) = min best (v::val)"
  by (auto simp: min_def)

text \<open>
  One pass of the two loops. When the child \<open>t\<close> returns \<open>v\<close> and the best value
  \<open>max best v\<close> reaches \<open>beta\<close>, the loop of \<open>ab_max_value\<close> ends there whatever
  children \<open>ts\<close> remain; otherwise it goes on with the remaining children. The loop of
  \<open>ab_min_value\<close> does the same with \<open>min best v \<le> alpha\<close>.
\<close>

lemma ab_loop_step:
  "(ab_min_value R self (fst (snd t)) (snd (snd t)) (d - 1) alpha beta = (v, self') \<longrightarrow>
      ab_max_value_loop R self (t # ts) key d alpha beta best =
        (if beta \<le> max best v
         then (max best v, store_max (snd (snd t)) d (max best v) self')
         else ab_max_value_loop R self' ts (snd (snd t)) d
                (if v > best then max alpha v else alpha) beta (max best v))) \<and>
   (ab_max_value R self (fst (snd t)) (snd (snd t)) (d - 1) alpha beta = (v, self') \<longrightarrow>
      ab_min_value_loop R self (t # ts) key d alpha beta best =
        (if min best v \<le> alpha
         then (min best v, store_min (snd (snd t)) d (min best v) self')
         else ab_min_value_loop R self' ts (snd (snd t)) d
                alpha (if v < best then min beta v else beta) (min best v)))"
  by (simp add: improved_is_max improved_is_min del: ab_max_value.simps ab_min_value.simps)

lemmas search_defs =
  cache_hit_def cached_value_def store_max_def store_min_def record_hit_def
  transitions_for_def evaluation_function_def np_int16_def board_lines_def count_line_def
  all_taken_or_neutral_def MinMaxPlayer_init_def

text \<open>
  C4 fails on the code. The search stops at the cutoff and returns the best value as
  claimed, but that value is not cached for the node searched. A fresh player searches
  state 6 of the cache game (key 6) as the max role to depth 1 with the full window: the
  first child, state 2, is won by the player, its value \<open>+\<infinity>\<close> reaches \<open>beta\<close>, and the
  search returns it without a search of the second child, state 3, for which no cache
  holds an entry. The entry with searched depth 1 is stored in the cache of the max role
  under key 2, the key of the child that caused the cutoff, and the cache has no entry
  for the searched key 6.
\<close>

theorem cutoff_stores_under_child:
  "fst (ab_max_value cache_game (MinMaxPlayer_init 0 1 False) 6 6 1 NegInf PosInf) = PosInf \<and>
   visited_min_states (snd (ab_max_value cache_game (MinMaxPlayer_init 0 1 False) 6 6 1 NegInf PosInf)) 3
     = None \<and>
   visited_max_states (snd (ab_max_value cache_game (MinMaxPlayer_init 0 1 False) 6 6 1 NegInf PosInf)) 3
     = None \<and>
   visited_max_states (snd (ab_max_value cache_game (MinMaxPlayer_init 0 1 False) 6 6 1 NegInf PosInf)) 6
     = None \<and>
   visited_max_states (snd (ab_max_value cache_game (MinMaxPlayer_init 0 1 False) 6 6 1 NegInf PosInf)) 2
     = Some (EntryMinMax 1 PosInf)"
  by (simp add: search_defs cache_game_def empty_board_def)

subsection \<open>The key under which a searched node is stored\<close>

text \<open>
  C2 fails on the code. A fresh player searches state 0 of the small game (key 0) as the
  max role to depth 1: the value is the maximum over both children, but the entry with
  searched depth 1 is stored under key 2, the key of the last child, and the cache has no
  entry for the queried key 0.
\<close>

theorem max_value_stores_under_last_child:
  "fst (max_value small_game (MinMaxPlayer_init 0 1 False) 0 0 1) = Fin 0 \<and>
   visited_max_states (snd (max_value small_game (MinMaxPlayer_init 0 1 False) 0 0 1)) 0 = None \<and>
   visited_max_states (snd (max_value small_game (MinMaxPlayer_init 0 1 False) 0 0 1)) 2
     = Some (EntryMinMax 1 (Fin 0)) \<and>
   hit (snd (max_value small_game (MinMaxPlayer_init 0 1 False) 0 0 1)) = 0"
  by (simp add: search_defs small_game_def empty_board_def)

subsection \<open>A stored entry does not last\<close>

text \<open>
  C3 fails on the code. Player 0 searches state 0 of the cache game as the max role to
  depth 3, which leaves the entry (3, \<open>+\<infinity>\<close>) under key 1 in the cache of the max role.
  The search of state 5 to depth 1 then writes the entry (1, 0) under the same key 1, the
  key of its last child. A later query of the max role for key 1 with the requested depth
  2, at most the depth 3 stored first, is not answered by the cache: the hit counter stays
  at 0, the child state 4 is searched (the cache of the min role gets its entry), and the
  result is \<open>-\<infinity>\<close>, not the value \<open>+\<infinity>\<close> stored first.
\<close>

theorem stored_entry_is_overwritten:
  "visited_max_states searched_once 1 = Some (EntryMinMax 3 PosInf) \<and>
   visited_max_states searched_twice 1 = Some (EntryMinMax 1 (Fin 0)) \<and>
   fst (max_value cache_game searched_twice 1 1 2) = NegInf \<and>
   hit (snd (max_value cache_game searched_twice 1 1 2)) = 0 \<and>
   visited_min_states searched_twice 4 = None \<and>
   visited_min_states (snd (max_value cache_game searched_twice 1 1 2)) 4
     = Some (EntryMinMax 0 NegInf)"
  by (simp add: searched_twice_def searched_once_def search_defs cache_game_def empty_board_def)

subsection \<open>The two engines on the same state\<close>

text \<open>
  C1 fails on the code. In state 0 of the small game, with depth 2 and without symmetry
  reduction, a fresh MinMax player 0 chooses action 0 with the root value \<open>-\<infinity>\<close>, and a
  fresh AlphaBeta player 0 chooses action 1 with the root value 0. The exact values of
  the two children at depth 1 are \<open>-\<infinity>\<close> and 0, so action 1 is the one to choose: the
  MinMax player answers the query for the second child, key 2, from the entry that the
  search of the first child left under key 2, the key of its last child.
\<close>

theorem engines_disagree:
  "map_sum id fst (root_choice small_game (MinMaxPlayer_init 0 2 False) 0) = Inr ((0, 0), NegInf) \<and>
   map_sum id fst (ab_root_choice small_game (MinMaxPlayer_init 0 2 False) 0) = Inr ((1, 1), Fin 0) \<and>
   map_sum id fst (make_move small_game (MinMaxPlayer_init 0 2 False) 0) = Inr 0 \<and>
   map_sum id fst (ab_make_move small_game (MinMaxPlayer_init 0 2 False) 0) = Inr 1 \<and>
   minimax_min small_game (MinMaxPlayer_init 0 2 False) 1 1 = NegInf \<and>
   minimax_min small_game (MinMaxPlayer_init 0 2 False) 2 1 = Fin 0"
  by (simp add: make_move_def root_choice_def ab_make_move_def ab_root_choice_def
      search_defs small_game_def empty_board_def)

subsection \<open>make\_move returns an enumerated action\<close>

lemma max_by_key_from_mem: "max_by_key_from c cs \<in> set (c # cs)"
  by (induction cs arbitrary: c) auto

lemma root_keys_actions:
  "root_keys R self i ts = (cs, self') \<Longrightarrow> map (snd \<circ> fst) cs = map fst ts"
  by (induction ts arbitrary: self i cs) (auto split: prod.splits)

lemma ab_root_keys_actions:
  "ab_root_keys R self i ts = (cs, self') \<Longrightarrow> map (snd \<circ> fst) cs = map fst ts"
  by (induction ts arbitrary: self i cs) (auto split: prod.splits)

lemma chosen_is_enumerated:
  assumes "map (snd \<circ> fst) (c # cs) = map fst ts"
  shows "snd (fst (max_by_key_from c cs)) \<in> fst ` set ts"
proof -
  have "max_by_key_from c cs \<in> set (c # cs)"
    by (rule max_by_key_from_mem)
  then have "(snd \<circ> fst) (max_by_key_from c cs) \<in> (snd \<circ> fst) ` set (c # cs)"
    by (rule imageI)
  then have "(snd \<circ> fst) (max_by_key_from c cs) \<in> set (map (snd \<circ> fst) (c # cs))"
    by (simp only: set_map)
  then have "(snd \<circ> fst) (max_by_key_from c cs) \<in> set (map fst ts)"
    by (simp only: assms)
  then show ?thesis by (simp only: set_map comp_apply)
qed

lemma make_move_enumerated:
  assumes "transitions_for R self game (player_id self) \<noteq> []"
  shows "\<exists>a self'. make_move R self game = Inr (a, self')
           \<and> a \<in> fst ` set (transitions_for R self game (player_id self))"
proof -
  obtain t ts where ts: "transitions_for R self game (player_id self) = t # ts"
    using assms by (cases "transitions_for R self game (player_id self)") auto
  obtain cs self' where rk: "root_keys R self 0 (t # ts) = (cs, self')"
    by (cases "root_keys R self 0 (t # ts)") auto
  from root_keys_actions[OF rk] obtain c cs' where cs: "cs = c # cs'"
    by (cases cs) auto
  have "snd (fst (max_by_key_from c cs')) \<in> fst ` set (t # ts)"
    using root_keys_actions[OF rk] cs chosen_is_enumerated by blast
  then show ?thesis
    by (simp add: make_move_def root_choice_def ts rk cs del: root_keys.simps)
qed

lemma ab_make_move_enumerated:
  assumes "transitions_for R self game (player_id self) \<noteq> []"
  shows "\<exists>a self'. ab_make_move R self game = Inr (a, self')
           \<and> a \<in> fst ` set (transitions_for R self game (player_id self))"
proof -
  obtain t ts where ts: "transitions_for R self game (player_id self) = t # ts"
    using assms by (cases "transitions_for R self game (player_id self)") auto
  obtain cs self' where rk: "ab_root_keys R self 0 (t # ts) = (cs, self')"
    by (cases "ab_root_keys R self 0 (t # ts)") auto
  from ab_root_keys_actions[OF rk] obtain c cs' where cs: "cs = c # cs'"
    by (cases cs) auto
  have "snd (fst (max_by_key_from c cs')) \<in> fst ` set (t # ts)"
    using ab_root_keys_actions[OF rk] cs chosen_is_enumerated by blast
  then show ?thesis
    by (simp add: ab_make_move_def ab_root_choice_def ts rk cs del: ab_root_keys.simps)
qed

lemma make_move_empty:
  assumes "transitions_for R self game (player_id self) = []"
  shows "make_move R self game = Inl ValueError" "ab_make_move R self game = Inl ValueError"
  using assms by (simp_all add: make_move_def root_choice_def ab_make_move_def ab_root_choice_def)

lemma canonical_transitions_of_ok:
  assumes "\<forall>q\<in>set ps. get_transformed_states M (snd q) \<noteq> []"
  shows "\<exists>cts. canonical_transitions_of M p (map (\<lambda>q. Two (fst q) (snd q)) ps) = Inr cts
           \<and> map fst cts = map fst ps"
  using assms
proof (induction ps)
  case Nil
  then show ?case by simp
next
  case (Cons q ps)
  then obtain cts where
    "canonical_transitions_of M p (map (\<lambda>q. Two (fst q) (snd q)) ps) = Inr cts"
    "map fst cts = map fst ps"
    by auto
  moreover obtain s ss where "get_transformed_states M (snd q) = s # ss"
    using Cons.prems by (cases "get_transformed_states M (snd q)") auto
  ultimately show ?case by (cases q) (simp add: py_min_def unpack_two_def)
qed

lemma canonical_transitions_of_three:
  assumes "Three a g k \<in> set ts"
  shows "canonical_transitions_of M p ts = Inl ValueError"
  using assms
proof (induction ts)
  case Nil
  then show ?case by simp
next
  case (Cons t ts)
  show ?case
  proof (cases "t = Three a g k")
    case True
    then show ?thesis by (simp add: unpack_two_def)
  next
    case False
    with Cons have "canonical_transitions_of M p ts = Inl ValueError" by simp
    then show ?thesis
      by (auto simp: unpack_two_def py_min_def split: transition.splits list.splits sum.splits)
  qed
qed

lemma greedy_from_mem: "fst (greedy_from best bv cs V) \<in> set (best # cs)"
  by (induction cs arbitrary: best bv V) (auto split: prod.splits)

lemma greedy_choice_mem:
  "cs \<noteq> [] \<Longrightarrow> \<exists>c V'. greedy_choice cs V = Inr (c, V') \<and> c \<in> set cs"
proof (cases cs)
  case Nil
  assume "cs \<noteq> []" with Nil show ?thesis by simp
next
  case (Cons c r)
  obtain v V1 where tr: "table_read V (snd c) = (v, V1)" by (cases "table_read V (snd c)") auto
  obtain c' V' where g: "greedy_from c v r V1 = (c', V')" by (cases "greedy_from c v r V1") auto
  have "c' \<in> set (c # r)" using greedy_from_mem[of c v r V1] g by simp
  then show ?thesis by (simp add: greedy_choice_def Cons tr g)
qed

lemma choice_mem:
  fixes W :: "('g, 'a, 'w) world_ops"
  shows "xs \<noteq> [] \<Longrightarrow> \<exists>x w'. choice W xs w = Inr (x, w') \<and> x \<in> set xs"
proof -
  assume ne: "xs \<noteq> []"
  obtain i w' where r: "rand_below W (length xs) w = (i, w')"
    by (cases "rand_below W (length xs) w") auto
  have "xs ! (i mod length xs) \<in> set xs" using ne by simp
  then show ?thesis using ne r by (cases xs) (auto simp: choice_def)
qed

lemma mc_make_move_enumerated:
  assumes ps: "mc_possible_transitions M game (get_current_player M game)
                 = map (\<lambda>q. Two (fst q) (snd q)) ps"
    and ne: "ps \<noteq> []"
    and sym: "\<forall>q\<in>set ps. get_transformed_states M (snd q) \<noteq> []"
  shows "\<exists>a self' w'. mc_make_move W M self game w = Inr (a, self', w') \<and> a \<in> fst ` set ps"
proof -
  let ?p = "get_current_player M game"
  let ?ts = "mc_possible_transitions M game ?p"
  obtain cts where "canonical_transitions_of M ?p (map (\<lambda>q. Two (fst q) (snd q)) ps) = Inr cts"
    and len: "map fst cts = map fst ps"
    using canonical_transitions_of_ok[OF sym] by blast
  then have cts: "canonical_transitions_of M ?p ?ts = Inr cts" using ps by simp
  show ?thesis
  proof (cases "list_ex (\<lambda>t. snd (snd t) \<in> dom (state_values self)) cts")
    case True
    let ?cs = "map (\<lambda>t. (fst t, snd (snd t))) cts"
    have "?cs \<noteq> []" using len ne by auto
    then obtain c V' where g: "greedy_choice ?cs (state_values self) = Inr (c, V')" "c \<in> set ?cs"
      using greedy_choice_mem by blast
    then obtain t where "t \<in> set cts" "c = (fst t, snd (snd t))" by auto
    then have "fst c \<in> set (map fst cts)" by simp
    then have "fst c \<in> fst ` set ps" using len by simp
    then show ?thesis using True g(1) cts by (simp add: mc_make_move_def Let_def)
  next
    case False
    have "?ts \<noteq> []" using ne ps by simp
    then obtain t w' where c: "choice W ?ts w = Inr (t, w')" "t \<in> set ?ts"
      using choice_mem[of ?ts W w] by blast
    then obtain q where q: "q \<in> set ps" "t = Two (fst q) (snd q)" using ps by auto
    have "mc_make_move W M self game w = Inr (fst q, self, w')"
      using False cts c(1) q(2)
      by (simp add: mc_make_move_def Let_def unpack_two_def split: prod.splits)
    then show ?thesis using q(1) by blast
  qed
qed

lemma mc_make_move_empty:
  assumes "mc_possible_transitions M game (get_current_player M game) = []"
  shows "mc_make_move W M self game w = Inl IndexError"
  using assms by (simp add: mc_make_move_def Let_def choice_def)

lemma mc_make_move_three:
  assumes "Three a g k \<in> set (mc_possible_transitions M game (get_current_player M game))"
  shows "mc_make_move W M self game w = Inl ValueError"
  using canonical_transitions_of_three[OF assms] by (simp add: mc_make_move_def Let_def)

text \<open>
  C10 fails on the code. The two search players do as the claim says (\<open>make_move_empty\<close>,
  \<open>make_move_enumerated\<close>, \<open>ab_make_move_enumerated\<close>), on the transitions of three
  components that \<^verbatim>\<open>min_max.py\<close> unpacks. On the same transitions the Monte Carlo
  player raises: in state 0 of the small game, where the search players choose action
  0, the header \<^verbatim>\<open>for a, state in transitions\<close> of its \<open>make_move\<close> meets a tuple of
  three components and the unpacking into two names raises \<^verbatim>\<open>ValueError\<close>.
\<close>

theorem monte_carlo_make_move_raises:
  "mc_possible_transitions (seen_by_monte_carlo small_game) 0 0 = [Three 0 1 1, Three 1 2 2] \<and>
   map_sum id fst (make_move small_game (MinMaxPlayer_init 0 1 False) 0) = Inr 0 \<and>
   map_sum id fst (ab_make_move small_game (MinMaxPlayer_init 0 1 False) 0) = Inr 0 \<and>
   mc_make_move fixed_world (seen_by_monte_carlo small_game) default_learner 0 0 = Inl ValueError"
  by (simp add: seen_by_monte_carlo_def mc_make_move_def unpack_two_def
      make_move_def root_choice_def ab_make_move_def ab_root_choice_def
      search_defs small_game_def empty_board_def)

section \<open>Properties of the Monte Carlo player\<close>

subsection \<open>The update of the state values\<close>


lemma table_read_again: "table_read (snd (table_read V key)) key = (value_of V key, snd (table_read V key))"
  by (simp add: table_read_def value_of_def split: option.splits)


lemma update_state_values_fields:
  "mc_alpha (update_state_values self key G) = mc_alpha self"
  "mc_gamma (update_state_values self key G) = mc_gamma self"
  "exploration_rate (update_state_values self key G) = exploration_rate self"
  "min_exploration_rate (update_state_values self key G) = min_exploration_rate self"
  "exploration_decay_rate (update_state_values self key G) = exploration_decay_rate self"
  "mc_rewards (update_state_values self key G) = mc_rewards self"
  by (simp_all add: update_state_values_def split: prod.splits)



lemma update_loop_fields:
  "mc_alpha (update_loop self es G) = mc_alpha self"
  "mc_gamma (update_loop self es G) = mc_gamma self"
  "exploration_rate (update_loop self es G) = exploration_rate self"
  "min_exploration_rate (update_loop self es G) = min_exploration_rate self"
  "exploration_decay_rate (update_loop self es G) = exploration_decay_rate self"
  "mc_rewards (update_loop self es G) = mc_rewards self"
  by (induction self es G rule: update_loop.induct; simp add: update_state_values_fields)+








subsection \<open>What an episode leaves unchanged\<close>

lemma table_read_dom: "dom V \<subseteq> dom (snd (table_read V key))" "key \<in> dom (snd (table_read V key))"
  by (auto simp: table_read_def split: option.splits)

lemma greedy_from_dom:
  "greedy_from best bv cs V = (c, V') \<Longrightarrow> dom V \<subseteq> dom V' \<and> snd ` set cs \<subseteq> dom V'"
proof (induction cs arbitrary: best bv V)
  case Nil
  then show ?case by simp
next
  case (Cons x xs)
  obtain v V1 where r: "table_read V (snd x) = (v, V1)" by (cases "table_read V (snd x)") auto
  then have 1: "dom V \<subseteq> dom V1" "snd x \<in> dom V1"
    using table_read_dom[where V = V and key = "snd x"] by simp_all
  from Cons.prems r have "greedy_from (if v > bv then x else best) (if v > bv then v else bv) xs V1 = (c, V')"
    by (simp split: if_splits)
  from Cons.IH[OF this] 1 show ?case by auto
qed

lemma greedy_choice_dom:
  assumes "greedy_choice cs V = Inr (c, V')"
  shows "dom V \<subseteq> dom V' \<and> snd ` set cs \<subseteq> dom V'"
proof (cases cs)
  case Nil
  with assms show ?thesis by (simp add: greedy_choice_def)
next
  case (Cons x xs)
  obtain v V1 where r: "table_read V (snd x) = (v, V1)" by (cases "table_read V (snd x)") auto
  then have 1: "dom V \<subseteq> dom V1" "snd x \<in> dom V1"
    using table_read_dom[where V = V and key = "snd x"] by simp_all
  from assms Cons r have "greedy_from x v xs V1 = (c, V')" by (simp add: greedy_choice_def)
  from greedy_from_dom[OF this] 1 show ?thesis using Cons by auto
qed

lemma step_training_keeps:
  assumes "step_training W R self game p w = Inr (c, self', w')"
  shows "(\<exists>V. self' = self\<lparr>state_values := V\<rparr>) \<and> dom (state_values self) \<subseteq> dom (state_values self')"
proof -
  obtain cts where cts: "canonical_transitions_of R p (mc_possible_transitions R game p) = Inr cts"
    using assms by (auto simp: step_training_def split: sum.splits)
  obtain u w1 where u: "rand_float W w = (u, w1)" by (cases "rand_float W w") auto
  show ?thesis
  proof (cases "u < exploration_rate self")
    case True
    with assms cts u have "self' = self" by (auto simp: step_training_def split: sum.splits)
    moreover have "self = self\<lparr>state_values := state_values self\<rparr>" by simp
    ultimately show ?thesis by (metis order_refl)
  next
    case False
    with assms cts u obtain c' V' where
      g: "greedy_choice (map (\<lambda>t. ((fst t, fst (snd t)), snd (snd t))) cts) (state_values self) = Inr (c', V')"
      and s: "self' = self\<lparr>state_values := V'\<rparr>"
      by (auto simp: step_training_def split: sum.splits)
    from greedy_choice_dom[OF g] s show ?thesis by auto
  qed
qed

lemma play_loop_keeps:
  "play_loop n W R players msd lv = Some (Inr lv') \<Longrightarrow>
     (\<exists>V. lv_self lv' = (lv_self lv)\<lparr>state_values := V\<rparr>)
     \<and> dom (state_values (lv_self lv)) \<subseteq> dom (state_values (lv_self lv'))"
proof (induction n arbitrary: lv)
  case 0
  then show ?case by simp
next
  case (Suc n)
  show ?case
  proof (cases "lv_winner lv < 0 \<and> lv_counter lv < msd")
    case False
    with Suc.prems have "lv' = lv" by simp
    moreover have "lv_self lv = (lv_self lv)\<lparr>state_values := state_values (lv_self lv)\<rparr>" by simp
    ultimately show ?thesis by blast
  next
    case True
    let ?idx = "(lv_player_idx lv + 1) mod 2"
    show ?thesis
    proof (cases "if ?idx = 0 then fst players else snd players")
      case Learner
      with Suc.prems True obtain c self1 w1 where
        st: "step_training W R (lv_self lv) (lv_game lv) ?idx (lv_world lv) = Inr (c, self1, w1)"
        by (auto split: sum.splits)
      let ?lv1 = "lv\<lparr>lv_player_idx := ?idx,
                           lv_player := Some Learner,
                           lv_game := fst (snd c),
                           lv_key := Some (snd (snd c)),
                           lv_trajectory := lv_trajectory lv @ [(snd (snd c), 0)],
                           lv_counter :=
                             (if lv_last_action lv = Some (fst c) then lv_counter lv + 1 else 0),
                           lv_last_action :=
                             (if lv_last_action lv = Some (fst c) then lv_last_action lv
                              else Some (fst c)),
                           lv_self := self1,
                           lv_world := w1,
                           lv_winner := mc_check_winner R (fst (snd c))\<rparr>"
      from Suc.prems True Learner st have "play_loop n W R players msd ?lv1 = Some (Inr lv')"
        by simp
      from Suc.IH[OF this] obtain V2 where
        a: "lv_self lv' = self1\<lparr>state_values := V2\<rparr>"
        and b: "dom (state_values self1) \<subseteq> dom (state_values (lv_self lv'))"
        by auto
      from step_training_keeps[OF st] obtain V1 where
        c: "self1 = (lv_self lv)\<lparr>state_values := V1\<rparr>"
        and d: "dom (state_values (lv_self lv)) \<subseteq> dom (state_values self1)"
        by auto
      have "lv_self lv' = (lv_self lv)\<lparr>state_values := V2\<rparr>"
        by (subst a, subst c) simp
      with b d show ?thesis by blast
    next
      case (Opponent i)
      with Suc.prems True obtain g1 w1 where
        ot: "opponent_turn n W R i (lv_game lv) ?idx (lv_world lv) = Some (g1, w1)"
        by (auto split: option.splits)
      let ?lv1 = "lv\<lparr>lv_player_idx := ?idx,
                           lv_player := Some (Opponent i),
                           lv_game := g1,
                           lv_world := w1,
                           lv_winner := mc_check_winner R g1\<rparr>"
      from Suc.prems True Opponent ot have "play_loop n W R players msd ?lv1 = Some (Inr lv')"
        by simp
      from Suc.IH[OF this] show ?thesis by simp
    qed
  qed
qed

lemma backpropagate_fields:
  "exploration_rate (backpropagate self tr) = exploration_rate self"
  "min_exploration_rate (backpropagate self tr) = min_exploration_rate self"
  "exploration_decay_rate (backpropagate self tr) = exploration_decay_rate self"
  "mc_rewards (backpropagate self tr) = mc_rewards self"
  by (simp_all add: backpropagate_def update_loop_fields)

lemma finish_episode_rate:
  assumes "finish_episode episode lv = Inr (self', w')"
  shows "exploration_rate self' = exploration_rate_after (lv_self lv) episode
         \<and> min_exploration_rate self' = min_exploration_rate (lv_self lv)
         \<and> exploration_decay_rate self' = exploration_decay_rate (lv_self lv)"
  using assms
  by (auto simp: finish_episode_def Let_def backpropagate_fields split: list.splits option.splits)

lemma run_episode_rate:
  assumes "run_episode fuel W R players msd episode self w = Some (Inr (self', w'))"
  shows "exploration_rate self' = exploration_rate_after self episode
         \<and> min_exploration_rate self' = min_exploration_rate self
         \<and> exploration_decay_rate self' = exploration_decay_rate self"
proof -
  from assms obtain lv where
    pl: "play_loop fuel W R players msd (episode_start R self w) = Some (Inr lv)"
    and fe: "finish_episode episode lv = Inr (self', w')"
    by (auto simp: run_episode_def split: option.splits sum.splits)
  from play_loop_keeps[OF pl] obtain V where "lv_self lv = self\<lparr>state_values := V\<rparr>"
    by (auto simp: episode_start_def)
  with finish_episode_rate[OF fe] show ?thesis
    by (simp add: exploration_rate_after_def)
qed

lemma train_episodes_rate:
  "es \<noteq> [] \<Longrightarrow> train_episodes fuel W R msd es pt self w = Some (Inr (self', w')) \<Longrightarrow>
     exploration_rate self' = exploration_rate_after self (last es)
     \<and> min_exploration_rate self' = min_exploration_rate self
     \<and> exploration_decay_rate self' = exploration_decay_rate self"
proof (induction es arbitrary: pt self w)
  case Nil
  then show ?case by simp
next
  case (Cons e es)
  let ?pt1 = "if minmax self \<and> isclose (switch_ratio self) (real e / real_of_int (n_episodes self))
              then ((Opponent 2, Learner), (Learner, Opponent 3)) else pt"
  from Cons.prems(2) obtain self1 w1 where
    re: "run_episode fuel W R (fst ?pt1) msd e self w = Some (Inr (self1, w1))"
    and rest: "train_episodes fuel W R msd es (snd ?pt1, fst ?pt1) self1 w1 = Some (Inr (self', w'))"
    by (auto simp: Let_def split: option.splits sum.splits)
  note r1 = run_episode_rate[OF re]
  show ?case
  proof (cases "es = []")
    case True
    with rest r1 show ?thesis by simp
  next
    case False
    from Cons.IH[OF False rest] r1 False show ?thesis
      by (simp add: exploration_rate_after_def)
  qed
qed

lemma np_clip_mono: "x \<le> y \<Longrightarrow> np_clip x lo hi \<le> np_clip y lo hi"
  by (auto simp: np_clip_def min_def max_def)

lemma np_clip_above: "hi \<le> x \<Longrightarrow> np_clip x lo hi = hi"
  by (auto simp: np_clip_def min_def max_def)

lemma np_clip_clamp:
  "lo \<le> hi \<Longrightarrow> np_clip x lo hi = max lo (min x hi) \<and> lo \<le> np_clip x lo hi"
  by (auto simp: np_clip_def min_def max_def)

lemma exploration_rate_after_le_one: "exploration_rate_after self i \<le> 1"
  by (simp add: exploration_rate_after_def np_clip_def)

lemma exploration_rate_after_antimono:
  assumes "i \<le> j"
  shows "exploration_rate_after self j \<le> exploration_rate_after self i"
proof (cases "0 \<le> exploration_decay_rate self")
  case True
  have "exploration_decay_rate self * real i \<le> exploration_decay_rate self * real j"
    using assms True by (simp add: mult_left_mono)
  then have "exp (- exploration_decay_rate self * real j) \<le> exp (- exploration_decay_rate self * real i)"
    by simp
  then show ?thesis
    unfolding exploration_rate_after_def by (rule np_clip_mono)
next
  case False
  have "1 \<le> exp (- exploration_decay_rate self * real k)" for k
  proof -
    have "0 \<le> (- exploration_decay_rate self) * real k"
      using False by (intro mult_nonneg_nonneg) simp_all
    then show ?thesis by (simp only: one_le_exp_iff)
  qed
  then have "exploration_rate_after self k = 1" for k
    unfolding exploration_rate_after_def by (rule np_clip_above)
  then show ?thesis by simp
qed

lemma exploration_rate_after_clamped:
  assumes "min_exploration_rate self \<le> 1"
  shows "exploration_rate_after self i =
           max (min_exploration_rate self) (min (exp (- exploration_decay_rate self * real i)) 1)
         \<and> min_exploration_rate self \<le> exploration_rate_after self i"
  unfolding exploration_rate_after_def using assms by (rule np_clip_clamp)

text \<open>
  C8. An episode with index \<open>i\<close> that ends without error leaves the exploration rate
  \<open>exploration_rate_after self i\<close>, which is \<open>exp (- decay * i)\<close> clipped by
  \<^verbatim>\<open>np.clip\<close>; so does a run of episodes, for the index of its last episode. When
  the floor is at most 1 this is \<open>exp (- decay * i)\<close> clamped to the interval from the
  floor to 1, and it is at least the floor. The rates never exceed 1, the rate the player
  starts with, and a later episode never gives a greater rate than an earlier one.
\<close>

theorem exploration_rate_schedule:
  "(run_episode fuel W R players msd i self w = Some (Inr (self', w')) \<longrightarrow>
      exploration_rate self' = exploration_rate_after self i) \<and>
   (es \<noteq> [] \<and> train_episodes fuel W R msd es pt self w = Some (Inr (self', w')) \<longrightarrow>
      exploration_rate self' = exploration_rate_after self (last es)) \<and>
   (min_exploration_rate self \<le> 1 \<longrightarrow>
      exploration_rate_after self i =
        max (min_exploration_rate self) (min (exp (- exploration_decay_rate self * real i)) 1) \<and>
      min_exploration_rate self \<le> exploration_rate_after self i) \<and>
   exploration_rate_after self i \<le> 1 \<and>
   (i \<le> j \<longrightarrow> exploration_rate_after self j \<le> exploration_rate_after self i)"
  using run_episode_rate[of fuel W R players msd i self w self' w']
    train_episodes_rate[of es fuel W R msd pt self w self' w']
    exploration_rate_after_clamped[of self i]
    exploration_rate_after_le_one[of self i]
    exploration_rate_after_antimono[of i j self]
  by blast

lemmas mc_defs =
  step_training_def canonical_transitions_of.simps unpack_two_def py_min_def choice_def
  greedy_choice_def
  table_read_def finish_episode_def episode_start_def run_episode_def game_reward_def
  mc_small_game_def fixed_world_def default_learner_def MonteCarloRLPlayer_init_def

lemma first_episode_runs:
  "\<exists>self' w'. run_episode 4 fixed_world mc_small_game (Opponent 0, Learner) 10 0 default_learner 0
      = Some (Inr (self', w')) \<and> mc_rewards self' = [10]"
  by (simp add: mc_defs eval_nat_numeral backpropagate_fields)

lemma first_run_of_episodes:
  "\<exists>self' w'. train_episodes 4 fixed_world mc_small_game 10 [0]
        ((Opponent 0, Learner), (Learner, Opponent 1)) default_learner 0
      = Some (Inr (self', w')) \<and> mc_rewards self' = [10]"
  by (simp add: mc_defs eval_nat_numeral backpropagate_fields)

theorem exploration_rate_schedule_witness:
  "(\<exists>self' w'. run_episode 4 fixed_world mc_small_game (Opponent 0, Learner) 10 0 default_learner 0
        = Some (Inr (self', w'))
      \<and> exploration_rate self' = exploration_rate_after default_learner 0) \<and>
   (\<exists>self' w'. train_episodes 4 fixed_world mc_small_game 10 [0]
          ((Opponent 0, Learner), (Learner, Opponent 1)) default_learner 0
        = Some (Inr (self', w'))
      \<and> exploration_rate self' = exploration_rate_after default_learner 0) \<and>
   exploration_rate_after default_learner 5
     = max (1 / 100) (min (exp (- (3 / 100000) * 5)) 1) \<and>
   1 / 100 \<le> exploration_rate_after default_learner 5 \<and>
   exploration_rate_after default_learner 5 \<le> 1 \<and>
   exploration_rate_after default_learner 7 \<le> exploration_rate_after default_learner 5"
proof -
  obtain s1 w1 where e1:
    "run_episode 4 fixed_world mc_small_game (Opponent 0, Learner) 10 0 default_learner 0
       = Some (Inr (s1, w1))"
    using first_episode_runs by blast
  obtain s2 w2 where e2:
    "train_episodes 4 fixed_world mc_small_game 10 [0]
        ((Opponent 0, Learner), (Learner, Opponent 1)) default_learner 0 = Some (Inr (s2, w2))"
    using first_run_of_episodes by blast
  have floor: "min_exploration_rate default_learner \<le> 1"
    by (simp add: default_learner_def MonteCarloRLPlayer_init_def)
  note T1 = exploration_rate_schedule
    [where fuel = 4 and W = fixed_world and R = mc_small_game and players = "(Opponent 0, Learner)"
       and msd = 10 and i = 0 and self = default_learner and w = 0 and self' = s1 and w' = w1]
  note T2 = exploration_rate_schedule
    [where fuel = 4 and W = fixed_world and R = mc_small_game and es = "[0]"
       and pt = "((Opponent 0, Learner), (Learner, Opponent 1))"
       and msd = 10 and self = default_learner and w = 0 and self' = s2 and w' = w2
       and i = 5 and j = 7]
  have a: "exploration_rate s1 = exploration_rate_after default_learner 0"
    using T1 e1 by blast
  have b: "exploration_rate s2 = exploration_rate_after default_learner 0"
    using T2 e2 by simp
  have c: "exploration_rate_after default_learner 5
     = max (1 / 100) (min (exp (- (3 / 100000) * 5)) 1) \<and>
     1 / 100 \<le> exploration_rate_after default_learner 5"
    using T2 floor by (simp add: default_learner_def MonteCarloRLPlayer_init_def)
  have d: "exploration_rate_after default_learner 5 \<le> 1 \<and>
     exploration_rate_after default_learner 7 \<le> exploration_rate_after default_learner 5"
    using T2 by simp
  from a b c d e1 e2 show ?thesis by blast
qed

subsection \<open>The game reward\<close>

text \<open>
  C7 fails on the code. In the first episode of \<^verbatim>\<open>train\<close> the opponent is player 0
  and the learner is player 1. The opponent moves, then the learner plays action 7 into
  state 1, which the rules engine reports as won by player 0. The learner made the last
  move, so \<^verbatim>\<open>_game_reward\<close> is called with the learner as \<^verbatim>\<open>player\<close> and the
  recorded reward is 10, although the reported winner is the opponent.
\<close>

theorem reward_follows_last_mover:
  "mc_check_winner mc_small_game 1 = 0 \<and>
   (\<exists>self' w'. train 4 fixed_world mc_small_game default_learner 10 0 = Some (Inr (self', w'))
       \<and> mc_rewards self' = [10])"
  by (simp add: train_def mc_defs eval_nat_numeral backpropagate_fields)

subsection \<open>Keys that were read are members of the table\<close>








section \<open>The two searches without cache hits\<close>

declare max_value.simps [simp del] min_value.simps [simp del]
  ab_max_value.simps [simp del] ab_min_value.simps [simp del]
  minimax_max.simps [simp del] minimax_min.simps [simp del]

lemma same_config_refl [simp]: "same_config s s"
  by (simp add: same_config_def)

lemma same_config_trans: "same_config s s1 \<Longrightarrow> same_config s1 s2 \<Longrightarrow> same_config s s2"
  by (simp add: same_config_def)

lemma same_config_updates [simp]:
  "same_config s (store_max key d v s)" "same_config s (store_min key d v s)"
  "same_config s (record_hit s)"
  by (simp_all add: same_config_def store_max_def store_min_def record_hit_def)

lemma hit_updates [simp]:
  "hit (store_max key d v s) = hit s" "hit (store_min key d v s) = hit s"
  "hit (record_hit s) = Suc (hit s)"
  by (simp_all add: store_max_def store_min_def record_hit_def)

lemma same_config_evaluation:
  "same_config s s' \<Longrightarrow> evaluation_function R s' game = evaluation_function R s game"
  by (simp add: same_config_def evaluation_function_def)

lemma same_config_transitions:
  "same_config s s' \<Longrightarrow> transitions_for R s' game p = transitions_for R s game p"
  by (simp add: same_config_def transitions_for_def)

lemma same_config_minimax:
  "same_config s s' \<Longrightarrow> minimax_max R s' game d = minimax_max R s game d"
  "same_config s s' \<Longrightarrow> minimax_min R s' game d = minimax_min R s game d"
proof (induction R s game d and R s game d rule: minimax_max_minimax_min.induct)
  case (1 R s game d)
  show ?case
  proof (cases "d \<le> 0 \<or> check_winner R game \<noteq> - 1")
    case True
    then show ?thesis
      using 1(2) by (simp add: minimax_max.simps same_config_evaluation)
  next
    case False
    have ts: "transitions_for R s' game (player_id s') = transitions_for R s game (player_id s)"
      using 1(2) by (simp add: same_config_transitions) (simp add: same_config_def)
    have "fold (\<lambda>t v. max v (minimax_min R s' (fst (snd t)) (d - 1)))
             (transitions_for R s game (player_id s)) NegInf
        = fold (\<lambda>t v. max v (minimax_min R s (fst (snd t)) (d - 1)))
             (transitions_for R s game (player_id s)) NegInf"
      by (rule fold_cong) (use 1 False in auto)
    then show ?thesis
      using False ts by (simp add: minimax_max.simps[of R s'] minimax_max.simps[of R s])
  qed
next
  case (2 R s game d)
  show ?case
  proof (cases "d \<le> 0 \<or> check_winner R game \<noteq> - 1")
    case True
    then show ?thesis
      using 2(2) by (simp add: minimax_min.simps same_config_evaluation)
  next
    case False
    have ts: "transitions_for R s' game (opponent_player_id s')
                = transitions_for R s game (opponent_player_id s)"
      using 2(2) by (simp add: same_config_transitions) (simp add: same_config_def)
    have "fold (\<lambda>t v. min v (minimax_max R s' (fst (snd t)) (d - 1)))
             (transitions_for R s game (opponent_player_id s)) PosInf
        = fold (\<lambda>t v. min v (minimax_max R s (fst (snd t)) (d - 1)))
             (transitions_for R s game (opponent_player_id s)) PosInf"
      by (rule fold_cong) (use 2 False in auto)
    then show ?thesis
      using False ts by (simp add: minimax_min.simps[of R s'] minimax_min.simps[of R s])
  qed
qed

text \<open>
  A MinMax search keeps the ids, the depth and the symmetry flag of the player, and never
  lowers the hit counter; when the counter is the same on return, so that no query was
  answered by the cache, the result is the exact depth-bounded minimax value.
\<close>

lemma minimax_search_exact:
  "max_value R self game key d = (v, self') \<Longrightarrow>
     same_config self self' \<and> hit self \<le> hit self'
     \<and> (hit self' = hit self \<longrightarrow> v = minimax_max R self game d)"
  "max_value_loop R self ts key d v0 = (v, self') \<Longrightarrow>
     same_config self self' \<and> hit self \<le> hit self'
     \<and> (hit self' = hit self \<longrightarrow>
          v = fold (\<lambda>t b. max b (minimax_min R self (fst (snd t)) (d - 1))) ts v0)"
  "min_value R self game key d = (v, self') \<Longrightarrow>
     same_config self self' \<and> hit self \<le> hit self'
     \<and> (hit self' = hit self \<longrightarrow> v = minimax_min R self game d)"
  "min_value_loop R self ts key d v0 = (v, self') \<Longrightarrow>
     same_config self self' \<and> hit self \<le> hit self'
     \<and> (hit self' = hit self \<longrightarrow>
          v = fold (\<lambda>t b. min b (minimax_max R self (fst (snd t)) (d - 1))) ts v0)"
proof (induction R self game key d and R self ts key d v0 and R self game key d
         and R self ts key d v0
       arbitrary: v self' and v self' and v self' and v self'
       rule: max_value_max_value_loop_min_value_min_value_loop.induct)
  case (1 R self game key d)
  show ?case
  proof (cases "cache_hit (visited_max_states self) key d")
    case True
    with 1(2) show ?thesis by (auto simp: max_value.simps)
  next
    case miss: False
    show ?thesis
    proof (cases "d \<le> 0 \<or> check_winner R game \<noteq> - 1")
      case True
      with miss 1(2) show ?thesis by (auto simp: max_value.simps minimax_max.simps)
    next
      case False
      with miss 1(2) have
        "max_value_loop R self (transitions_for R self game (player_id self)) key d NegInf = (v, self')"
        by (simp add: max_value.simps)
      from 1(1)[OF miss False this] False show ?thesis
        by (simp add: minimax_max.simps)
    qed
  qed
next
  case (2 R self key d v0)
  then show ?case by auto
next
  case (3 R self t ts key d v0)
  obtain v1 s1 where c: "min_value R self (fst (snd t)) (snd (snd t)) (d - 1) = (v1, s1)"
    by (cases "min_value R self (fst (snd t)) (snd (snd t)) (d - 1)") auto
  with 3(3) have r: "max_value_loop R s1 ts (snd (snd t)) d (max v0 v1) = (v, self')"
    by simp
  note A = 3(1)[OF c]
  note B = 3(2)[OF c[symmetric] r]
  from A B have cfg: "same_config self self'" and le: "hit self \<le> hit self'"
    by (auto intro: same_config_trans)
  have "v = fold (\<lambda>t b. max b (minimax_min R self (fst (snd t)) (d - 1))) (t # ts) v0"
    if eq: "hit self' = hit self"
  proof -
    from A B eq have h1: "hit s1 = hit self" and h2: "hit self' = hit s1" by auto
    from A h1 have v1: "v1 = minimax_min R self (fst (snd t)) (d - 1)" by simp
    from B h2 have "v = fold (\<lambda>t b. max b (minimax_min R s1 (fst (snd t)) (d - 1))) ts (max v0 v1)"
      by simp
    also have "(\<lambda>t b. max b (minimax_min R s1 (fst (snd t)) (d - 1)))
             = (\<lambda>t b. max b (minimax_min R self (fst (snd t)) (d - 1)))"
      by (simp add: same_config_minimax(2)[OF conjunct1[OF A]])
    finally show ?thesis by (simp add: v1)
  qed
  with cfg le show ?case by blast
next
  case (4 R self game key d)
  show ?case
  proof (cases "cache_hit (visited_min_states self) key d")
    case True
    with 4(2) show ?thesis by (auto simp: min_value.simps)
  next
    case miss: False
    show ?thesis
    proof (cases "d \<le> 0 \<or> check_winner R game \<noteq> - 1")
      case True
      with miss 4(2) show ?thesis by (auto simp: min_value.simps minimax_min.simps)
    next
      case False
      with miss 4(2) have
        "min_value_loop R self (transitions_for R self game (opponent_player_id self)) key d PosInf = (v, self')"
        by (simp add: min_value.simps)
      from 4(1)[OF miss False this] False show ?thesis
        by (simp add: minimax_min.simps)
    qed
  qed
next
  case (5 R self key d v0)
  then show ?case by auto
next
  case (6 R self t ts key d v0)
  obtain v1 s1 where c: "max_value R self (fst (snd t)) (snd (snd t)) (d - 1) = (v1, s1)"
    by (cases "max_value R self (fst (snd t)) (snd (snd t)) (d - 1)") auto
  with 6(3) have r: "min_value_loop R s1 ts (snd (snd t)) d (min v0 v1) = (v, self')"
    by simp
  note A = 6(1)[OF c]
  note B = 6(2)[OF c[symmetric] r]
  from A B have cfg: "same_config self self'" and le: "hit self \<le> hit self'"
    by (auto intro: same_config_trans)
  have "v = fold (\<lambda>t b. min b (minimax_max R self (fst (snd t)) (d - 1))) (t # ts) v0"
    if eq: "hit self' = hit self"
  proof -
    from A B eq have h1: "hit s1 = hit self" and h2: "hit self' = hit s1" by auto
    from A h1 have v1: "v1 = minimax_max R self (fst (snd t)) (d - 1)" by simp
    from B h2 have "v = fold (\<lambda>t b. min b (minimax_max R s1 (fst (snd t)) (d - 1))) ts (min v0 v1)"
      by simp
    also have "(\<lambda>t b. min b (minimax_max R s1 (fst (snd t)) (d - 1)))
             = (\<lambda>t b. min b (minimax_max R self (fst (snd t)) (d - 1)))"
      by (simp add: same_config_minimax(1)[OF conjunct1[OF A]])
    finally show ?thesis by (simp add: v1)
  qed
  with cfg le show ?case by blast
qed

end
